theory Spec2Isabelle
  imports Main "HOL-Library.Word"
begin

section \<open>excelorm: records to spreadsheet sheets\<close>

text \<open>
  A shallow embedding of the Go package \<open>excelorm\<close>, from the version of its source file
  that is written against \<open>excelize/v2\<close> and returns the container's errors (the earlier
  \<open>build.go\<close> drops them and is the same otherwise): the cell-coordinate functions, the
  option functions, the conversion of a struct field into a cell value, \<open>appendRow\<close>,
  \<open>setNoDataSheetHeaders\<close> and \<open>write\<close>. Writing the file to disk or to a buffer, which
  \<open>WriteExcelSaveAs\<close> and \<open>WriteExcelAsBytesBuffer\<close> do after \<open>write\<close>, is the
  container's and is left out.
  Go's \<open>int\<close> is modelled as \<open>int\<close>: every integer the code computes is a field
  index, a row number or a line count, far below \<open>2 ^ 63\<close>. A Go \<open>string\<close> is a byte
  string, here a \<open>string\<close>. A Go result \<open>(v, error)\<close> with both parts meaningful is a
  pair \<open>v \<times> error option\<close>; a function whose value is dropped on error returns
  \<open>error + v\<close>. A run-time panic is the error \<open>Panic\<close>.
\<close>

subsection \<open>Errors and kinds\<close>

text \<open>The kinds of \<open>reflect.Kind\<close>.\<close>

datatype kind =
    Invalid | Bool | Int | Int8 | Int16 | Int32 | Int64
  | Uint | Uint8 | Uint16 | Uint32 | Uint64 | Uintptr
  | Float32 | Float64 | Complex64 | Complex128
  | Array | Chan | Func | Interface | Map | Pointer | Slice
  | String | Struct | UnsafePointer

text \<open>
  The errors of the package, one constructor per message:
  \<^item> \<open>NilReferenceRow\<close>: "nil reference row append is not allowed";
  \<^item> \<open>NoSheetName\<close>: "sheetModel must have a sheet name";
  \<^item> \<open>MustBeStruct\<close>: "sheetModel must be struct";
  \<^item> \<open>UnsupportedType t\<close>: "unsupported type %T" with the type's name \<open>t\<close>;
  \<^item> \<open>UnsupportedKind k\<close>: "unsupported type %s" with the kind \<open>k\<close>;
  \<^item> \<open>InvalidCellReference col row\<close>: "invalid cell reference [%d, %d]";
  \<^item> \<open>RowExceedsLimit\<close>: "row number exceeds maximum limit";
  \<^item> \<open>ColumnOutOfRange\<close>: "the column number must be greater than or equal to 1 and
    less than or equal to 16384";
  \<^item> \<open>SheetNotExist s\<close>: the container's error for a cell write to an absent sheet;
  \<^item> \<open>Panic\<close>: a run-time panic (a method call on a nil value, a failed type assertion,
    \<open>NumField\<close> of a type that is no struct, \<open>Interface\<close> of an unexported field).
\<close>

datatype error =
    NilReferenceRow
  | NoSheetName
  | MustBeStruct
  | UnsupportedType string
  | UnsupportedKind kind
  | InvalidCellReference int int
  | RowExceedsLimit
  | ColumnOutOfRange
  | SheetNotExist string
  | Panic

subsection \<open>Decimal text: \<open>strconv.Itoa\<close>\<close>

text \<open>
  \<open>strconv.Itoa\<close>, \<open>strconv.FormatInt (_, 10)\<close> and \<open>strconv.FormatUint (_, 10)\<close> belong
  to Go's standard library; they are modelled by what they return: the decimal digits,
  most significant first, after a minus sign for a negative number.
\<close>

definition digitChar :: "nat \<Rightarrow> char" where
  "digitChar d = char_of (48 + d)"

fun digitsOf :: "nat \<Rightarrow> string" where
  "digitsOf n = (if n < 10 then [digitChar n] else digitsOf (n div 10) @ [digitChar (n mod 10)])"

declare digitsOf.simps [simp del]

definition FormatUint :: "nat \<Rightarrow> string" where
  "FormatUint n = digitsOf n"

definition Itoa :: "int \<Rightarrow> string" where
  "Itoa i = (if i < 0 then CHR ''-'' # digitsOf (nat (- i)) else digitsOf (nat i))"

subsection \<open>Cell coordinates\<close>

text \<open>
  The loop of \<open>columnNumberToName\<close>:
  \<^verbatim>\<open>for num > 0 { col = string(rune((num-1)%26+65)) + col; num = (num - 1) / 26 }\<close>
  Go's \<open>/\<close> and \<open>%\<close> truncate towards zero; here \<open>num - 1\<close> is never negative, where they
  agree with \<open>div\<close> and \<open>mod\<close>.
\<close>

function columnLoop :: "int \<Rightarrow> string \<Rightarrow> string" where
  "columnLoop num col =
     (if num > 0 then columnLoop ((num - 1) div 26) (char_of ((num - 1) mod 26 + 65) # col)
      else col)"
  by pat_completeness auto
termination
  by (relation "measure (\<lambda>(num, col). nat num)") auto

declare columnLoop.simps [simp del]

definition minColumns :: int where "minColumns = 1"
definition maxColumns :: int where "maxColumns = 16384"
definition totalRows :: int where "totalRows = 1048576"

definition columnNumberToName :: "int \<Rightarrow> string \<times> error option" where
  "columnNumberToName num =
     (if num < minColumns \<or> num > maxColumns then ([], Some ColumnOutOfRange)
      else (columnLoop num [], None))"

definition coordinatesToCellName :: "int \<Rightarrow> int \<Rightarrow> string \<times> error option" where
  "coordinatesToCellName col row =
     (if col < 1 \<or> row < 1 then ([], Some (InvalidCellReference col row))
      else if row > totalRows then ([], Some RowExceedsLimit)
      else (case columnNumberToName col of (colName, err) \<Rightarrow> (colName @ Itoa row, err)))"


text \<open>
  The column letters as the specification describes them: repeated 1-based base-26
  remainder-and-divide, the most significant letter first. \<open>columnLoop\<close> is compared
  with it below.
\<close>

function columnLetters :: "int \<Rightarrow> string" where
  "columnLetters n =
     (if n > 0 then columnLetters ((n - 1) div 26) @ [char_of ((n - 1) mod 26 + 65)] else [])"
  by pat_completeness auto
termination
  by (relation "measure nat") auto

declare columnLetters.simps [simp del]

text \<open>The domain of the coordinates: columns 1 to 16384, rows 1 to 1048576.\<close>

definition inDomain :: "int \<Rightarrow> int \<Rightarrow> bool" where
  "inDomain col row = (1 \<le> col \<and> col \<le> 16384 \<and> 1 \<le> row \<and> row \<le> 1048576)"

text \<open>Reading a cell name back, used to show that no two coordinates share a name.\<close>

definition isUpperAZ :: "char \<Rightarrow> bool" where
  "isUpperAZ c = (65 \<le> (of_char c :: int) \<and> (of_char c :: int) \<le> 90)"

definition columnValue :: "string \<Rightarrow> int" where
  "columnValue s = foldl (\<lambda>a c. a * 26 + (of_char c - 64)) 0 s"

definition decimalValue :: "string \<Rightarrow> nat" where
  "decimalValue s = foldl (\<lambda>a c. a * 10 + (of_char c - 48)) 0 s"

subsection \<open>Records, fields and values\<close>

text \<open>
  A \<open>time.Time\<close> is an instant, here a number. A float is kept as its bits.
\<close>

datatype goTime = Time int

text \<open>
  The value of a struct field, as \<open>appendRow\<close> tells values apart:
  \<^item> \<open>IntV\<close>: an \<open>int\<close>, \<open>int8\<close>, \<open>int16\<close>, \<open>int32\<close> or \<open>int64\<close>;
  \<^item> \<open>UintV\<close>: a \<open>uint\<close>, \<open>uint8\<close>, \<open>uint16\<close>, \<open>uint32\<close> or \<open>uint64\<close>;
  \<^item> \<open>StringV\<close>, \<open>BoolV\<close>, \<open>Float32V\<close>, \<open>Float64V\<close>, \<open>TimeV\<close>: a \<open>string\<close>, \<open>bool\<close>,
    \<open>float32\<close>, \<open>float64\<close>, \<open>time.Time\<close>;
  \<^item> \<open>DefinedV t\<close>: a value of any other type \<open>t\<close> whose kind is in the second case of
    the switch on the kind (a struct that is not \<open>time.Time\<close>, a defined type over an
    integer, a string, a bool or a float): the type switch takes its default branch;
  \<^item> \<open>PointerV p\<close>: a pointer, \<open>None\<close> when nil, else the value it points to;
  \<^item> \<open>UnsupportedV k\<close>: a value of kind \<open>k\<close>, one of Map, Slice, Array, Chan, Func,
    Interface, Invalid, UnsafePointer, Complex64, Complex128, Uintptr.
\<close>

datatype goValue =
    IntV int
  | UintV nat
  | StringV string
  | BoolV bool
  | Float32V "32 word"
  | Float64V "64 word"
  | TimeV goTime
  | DefinedV string
  | PointerV "goValue option"
  | UnsupportedV kind

text \<open>
  A struct field as reflection shows it: its name, the value of its \<open>excel_header\<close> tag
  (empty when the field has none), whether the field is exported, and its value.
  \<open>reflect.Value.Interface\<close> panics on a value read from an unexported field.
\<close>

record field =
  fieldName :: string
  excelHeader :: string
  exported :: bool
  fieldValue :: goValue

text \<open>
  A value of the interface \<open>SheetModel\<close>, with the string its method \<open>SheetName\<close>
  returns:
  \<^item> \<open>NilModel\<close>: the nil interface value;
  \<^item> \<open>StructModel name fields\<close>: a struct;
  \<^item> \<open>PtrModel recv name p\<close>: a pointer to a value of a type \<open>T\<close>, nil when \<open>p\<close> is
    \<open>None\<close>; \<open>recv\<close> tells whether \<open>SheetName\<close> is declared on \<open>T\<close> or on \<open>*T\<close>. With
    a value receiver the call on a nil pointer panics; with a pointer receiver \<open>T\<close> does
    not implement \<open>SheetModel\<close> and the type assertion after \<open>reflect.Indirect\<close> panics;
  \<^item> \<open>OtherModel k name\<close>: a value of any other kind \<open>k\<close> (such as \<open>type Sheet4 int\<close>).
\<close>

datatype receiver = ValueReceiver | PointerReceiver

datatype sheetModel =
    NilModel
  | StructModel string "field list"
  | PtrModel receiver string "sheetModel option"
  | OtherModel kind string

fun SheetName :: "sheetModel \<Rightarrow> error + string" where
  "SheetName NilModel = Inl Panic"
| "SheetName (StructModel name fs) = Inr name"
| "SheetName (PtrModel ValueReceiver name None) = Inl Panic"
| "SheetName (PtrModel recv name p) = Inr name"
| "SheetName (OtherModel k name) = Inr name"

text \<open>\<open>reflect.TypeOf (sheetModel).Kind ()\<close>, called on values that are not nil.\<close>

fun modelKind :: "sheetModel \<Rightarrow> kind" where
  "modelKind NilModel = Invalid"
| "modelKind (StructModel name fs) = Struct"
| "modelKind (PtrModel recv name p) = Pointer"
| "modelKind (OtherModel k name) = k"

subsection \<open>Options\<close>

record options =
  timeFormatLayout :: string
  floatPrecision :: int
  floatFmt :: char
  ifNullValue :: string
  sheetHeaders :: "sheetModel list"
  trueValue :: "string option"
  falseValue :: "string option"
  integerAsString :: bool
  headless :: bool

type_synonym Option = "options \<Rightarrow> options"




definition WithIfNullValue :: "string \<Rightarrow> Option" where
  "WithIfNullValue v = (\<lambda>options. options\<lparr>ifNullValue := v\<rparr>)"

definition WithSheetHeaders :: "sheetModel list \<Rightarrow> Option" where
  "WithSheetHeaders headers = (\<lambda>options. options\<lparr>sheetHeaders := headers\<rparr>)"



definition WithHeadless :: Option where
  "WithHeadless = (\<lambda>options. options\<lparr>headless := True\<rparr>)"

text \<open>The default options of \<open>write\<close>; the fields it does not name have Go's zero value.\<close>

definition defaultOptions :: options where
  "defaultOptions =
     \<lparr>timeFormatLayout = ''2006-01-02 15:04:05'', floatPrecision = 2, floatFmt = CHR ''f'',
      ifNullValue = [], sheetHeaders = [], trueValue = None, falseValue = None,
      integerAsString = False, headless = False\<rparr>"

text \<open>\<^verbatim>\<open>for _, opt := range opts { opt(options) }\<close>\<close>

fun applyOptions :: "options \<Rightarrow> Option list \<Rightarrow> options" where
  "applyOptions options [] = options"
| "applyOptions options (opt # opts) = applyOptions (opt options) opts"


subsection \<open>The sheet container\<close>

text \<open>
  What a cell receives through \<open>SetCellValue\<close>: a native integer, string or boolean, or
  the text of a formatter of Go's standard library, kept as the arguments of the call:
  \<^item> \<open>CFormatFloat32 x fmt prec\<close> is \<open>strconv.FormatFloat (float64 (x), fmt, prec, 32)\<close>;
  \<^item> \<open>CFormatFloat64 x fmt prec\<close> is \<open>strconv.FormatFloat (x, fmt, prec, 64)\<close>;
  \<^item> \<open>CFormatTime t layout\<close> is \<open>t.Format (layout)\<close>.
\<close>

datatype cellValue =
    CInt int
  | CUint nat
  | CString string
  | CBool bool
  | CFormatFloat32 "32 word" char int
  | CFormatFloat64 "64 word" char int
  | CFormatTime goTime string

text \<open>
  Modelled from the spec: the sheet container is the external package \<open>excelize\<close>,
  which is not part of this repository. Its contract in the specification: create-sheet,
  get-sheet-index (an index, or a sentinel for "not present": the code tests for \<open>-1\<close>),
  set-cell-value, delete-sheet. A file is the list of its sheets, each a name and the cells
  written so far, by cell name; a new file holds the empty default sheet \<open>Sheet1\<close>, which
  \<open>write\<close> deletes under that name. Sheet names are compared as they are, and the
  container's own checks of a sheet name are not modelled: the operations fail only where
  the sheet of a cell write is absent.
\<close>

type_synonym cells = "string \<rightharpoonup> cellValue"
type_synonym excelFile = "(string \<times> cells) list"

definition NewFile :: excelFile where
  "NewFile = [(''Sheet1'', Map.empty)]"

definition hasSheet :: "excelFile \<Rightarrow> string \<Rightarrow> bool" where
  "hasSheet f name = (name \<in> fst ` set f)"

fun sheetIndex :: "excelFile \<Rightarrow> string \<Rightarrow> int \<Rightarrow> int" where
  "sheetIndex [] name i = - 1"
| "sheetIndex (s # ss) name i = (if fst s = name then i else sheetIndex ss name (i + 1))"

definition GetSheetIndex :: "excelFile \<Rightarrow> string \<Rightarrow> error + int" where
  "GetSheetIndex f name = Inr (sheetIndex f name 0)"

definition NewSheet :: "excelFile \<Rightarrow> string \<Rightarrow> error + excelFile" where
  "NewSheet f name = (if hasSheet f name then Inr f else Inr (f @ [(name, Map.empty)]))"

definition SetCellValue :: "excelFile \<Rightarrow> string \<Rightarrow> string \<Rightarrow> cellValue \<Rightarrow> error + excelFile" where
  "SetCellValue f sheet cell v =
     (if hasSheet f sheet
      then Inr (map (\<lambda>s. if fst s = sheet then (fst s, (snd s)(cell \<mapsto> v)) else s) f)
      else Inl (SheetNotExist sheet))"

definition DeleteSheet :: "excelFile \<Rightarrow> string \<Rightarrow> error + excelFile" where
  "DeleteSheet f name = Inr (filter (\<lambda>s. fst s \<noteq> name) f)"

text \<open>Reading a file: the content of a cell, \<open>None\<close> when the sheet or the cell is absent.\<close>

definition cellAt :: "excelFile \<Rightarrow> string \<Rightarrow> string \<Rightarrow> cellValue option" where
  "cellAt f sheet cell = (case map_of f sheet of None \<Rightarrow> None | Some cs \<Rightarrow> cs cell)"

subsection \<open>Writing one field\<close>

text \<open>
  The body of the field loop of \<open>appendRow\<close> after the cell name is known: the switch on
  the kind, the jump back to it for a pointer that is not nil, and the type switch.
  \<open>ex\<close> is whether the field is exported: \<open>fieldValue.Interface ()\<close> panics otherwise.
\<close>

fun setFieldValue ::
  "excelFile \<Rightarrow> string \<Rightarrow> string \<Rightarrow> options \<Rightarrow> bool \<Rightarrow> goValue \<Rightarrow> error + excelFile" where
  "setFieldValue f sheetName cellName opts ex (PointerV None) =
     SetCellValue f sheetName cellName (CString (ifNullValue opts))"
| "setFieldValue f sheetName cellName opts ex (PointerV (Some v)) =
     setFieldValue f sheetName cellName opts ex v"
| "setFieldValue f sheetName cellName opts ex (IntV n) =
     (if \<not> ex then Inl Panic
      else if integerAsString opts then SetCellValue f sheetName cellName (CString (Itoa n))
      else SetCellValue f sheetName cellName (CInt n))"
| "setFieldValue f sheetName cellName opts ex (UintV n) =
     (if \<not> ex then Inl Panic
      else if integerAsString opts then SetCellValue f sheetName cellName (CString (FormatUint n))
      else SetCellValue f sheetName cellName (CUint n))"
| "setFieldValue f sheetName cellName opts ex (StringV s) =
     (if \<not> ex then Inl Panic else SetCellValue f sheetName cellName (CString s))"
| "setFieldValue f sheetName cellName opts ex (BoolV b) =
     (if \<not> ex then Inl Panic
      else if trueValue opts \<noteq> None \<and> b
        then SetCellValue f sheetName cellName (CString (the (trueValue opts)))
      else if falseValue opts \<noteq> None \<and> \<not> b
        then SetCellValue f sheetName cellName (CString (the (falseValue opts)))
      else SetCellValue f sheetName cellName (CBool b))"
| "setFieldValue f sheetName cellName opts ex (Float32V x) =
     (if \<not> ex then Inl Panic
      else SetCellValue f sheetName cellName (CFormatFloat32 x (floatFmt opts) (floatPrecision opts)))"
| "setFieldValue f sheetName cellName opts ex (Float64V x) =
     (if \<not> ex then Inl Panic
      else SetCellValue f sheetName cellName (CFormatFloat64 x (floatFmt opts) (floatPrecision opts)))"
| "setFieldValue f sheetName cellName opts ex (TimeV t) =
     (if \<not> ex then Inl Panic
      else SetCellValue f sheetName cellName (CFormatTime t (timeFormatLayout opts)))"
| "setFieldValue f sheetName cellName opts ex (DefinedV t) =
     (if \<not> ex then Inl Panic else Inl (UnsupportedType t))"
| "setFieldValue f sheetName cellName opts ex (UnsupportedV k) = Inl (UnsupportedKind k)"

text \<open>
  The value that \<open>setFieldValue\<close> hands to \<open>SetCellValue\<close>, or the error it stops with:
  the conversion table alone, without the file.
\<close>

fun fieldCell :: "options \<Rightarrow> bool \<Rightarrow> goValue \<Rightarrow> error + cellValue" where
  "fieldCell opts ex (PointerV None) = Inr (CString (ifNullValue opts))"
| "fieldCell opts ex (PointerV (Some v)) = fieldCell opts ex v"
| "fieldCell opts ex (IntV n) =
     (if \<not> ex then Inl Panic
      else if integerAsString opts then Inr (CString (Itoa n)) else Inr (CInt n))"
| "fieldCell opts ex (UintV n) =
     (if \<not> ex then Inl Panic
      else if integerAsString opts then Inr (CString (FormatUint n)) else Inr (CUint n))"
| "fieldCell opts ex (StringV s) = (if \<not> ex then Inl Panic else Inr (CString s))"
| "fieldCell opts ex (BoolV b) =
     (if \<not> ex then Inl Panic
      else if trueValue opts \<noteq> None \<and> b then Inr (CString (the (trueValue opts)))
      else if falseValue opts \<noteq> None \<and> \<not> b then Inr (CString (the (falseValue opts)))
      else Inr (CBool b))"
| "fieldCell opts ex (Float32V x) =
     (if \<not> ex then Inl Panic else Inr (CFormatFloat32 x (floatFmt opts) (floatPrecision opts)))"
| "fieldCell opts ex (Float64V x) =
     (if \<not> ex then Inl Panic else Inr (CFormatFloat64 x (floatFmt opts) (floatPrecision opts)))"
| "fieldCell opts ex (TimeV t) =
     (if \<not> ex then Inl Panic else Inr (CFormatTime t (timeFormatLayout opts)))"
| "fieldCell opts ex (DefinedV t) = (if \<not> ex then Inl Panic else Inl (UnsupportedType t))"
| "fieldCell opts ex (UnsupportedV k) = Inl (UnsupportedKind k)"

subsection \<open>appendRow\<close>

text \<open>
  The header of a field where the code writes one: the tag, or the field's name when the
  tag is empty.
\<close>

definition headerText :: "field \<Rightarrow> string" where
  "headerText fd = (if excelHeader fd = [] then fieldName fd else excelHeader fd)"

text \<open>
  The pointer check of \<open>appendRow\<close> and \<open>setNoDataSheetHeaders\<close>: a pointer that is not
  nil is replaced by what it points to, asserted to be a \<open>SheetModel\<close>.
\<close>

fun derefModel :: "sheetModel \<Rightarrow> error + sheetModel" where
  "derefModel NilModel = Inl Panic"
| "derefModel (PtrModel recv name None) = Inl NilReferenceRow"
| "derefModel (PtrModel ValueReceiver name (Some p)) = Inr p"
| "derefModel (PtrModel PointerReceiver name (Some p)) = Inl Panic"
| "derefModel (StructModel name fs) = Inr (StructModel name fs)"
| "derefModel (OtherModel k name) = Inr (OtherModel k name)"

text \<open>\<open>NumField\<close> and \<open>Field\<close> panic on a type that is not a struct.\<close>

fun structFields :: "sheetModel \<Rightarrow> error + field list" where
  "structFields (StructModel name fs) = Inr fs"
| "structFields NilModel = Inl Panic"
| "structFields (PtrModel recv name p) = Inl Panic"
| "structFields (OtherModel k name) = Inl Panic"

text \<open>The header loop of \<open>appendRow\<close>, from field index \<open>i\<close>.\<close>

fun appendHeaders :: "excelFile \<Rightarrow> string \<Rightarrow> int \<Rightarrow> field list \<Rightarrow> error + excelFile" where
  "appendHeaders f sheetName i [] = Inr f"
| "appendHeaders f sheetName i (fd # fds) =
     (case coordinatesToCellName (i + 1) 1 of
        (cellName, Some e) \<Rightarrow> Inl e
      | (cellName, None) \<Rightarrow>
          (case SetCellValue f sheetName cellName (CString (headerText fd)) of
             Inl e \<Rightarrow> Inl e
           | Inr f' \<Rightarrow> appendHeaders f' sheetName (i + 1) fds))"

text \<open>The field loop of \<open>appendRow\<close>, from field index \<open>i\<close>, writing row \<open>line\<close>.\<close>

fun appendFields ::
  "excelFile \<Rightarrow> string \<Rightarrow> int \<Rightarrow> options \<Rightarrow> int \<Rightarrow> field list \<Rightarrow> error + excelFile" where
  "appendFields f sheetName line opts i [] = Inr f"
| "appendFields f sheetName line opts i (fd # fds) =
     (case coordinatesToCellName (i + 1) line of
        (cellName, Some e) \<Rightarrow> Inl e
      | (cellName, None) \<Rightarrow>
          (case setFieldValue f sheetName cellName opts (exported fd) (fieldValue fd) of
             Inl e \<Rightarrow> Inl e
           | Inr f' \<Rightarrow> appendFields f' sheetName line opts (i + 1) fds))"

definition appendRow :: "excelFile \<Rightarrow> sheetModel \<Rightarrow> int \<Rightarrow> options \<Rightarrow> error + excelFile" where
  "appendRow f sheetModel line opts =
     (case SheetName sheetModel of Inl e \<Rightarrow> Inl e | Inr sheetName \<Rightarrow>
     (case GetSheetIndex f sheetName of Inl e \<Rightarrow> Inl e | Inr idx \<Rightarrow>
     (case (if idx = - 1 then NewSheet f sheetName else Inr f) of Inl e \<Rightarrow> Inl e | Inr f1 \<Rightarrow>
     (case derefModel sheetModel of Inl e \<Rightarrow> Inl e | Inr model \<Rightarrow>
     (case structFields model of Inl e \<Rightarrow> Inl e | Inr fs \<Rightarrow>
        if line + 1 = 1 \<and> \<not> headless opts
        then (case appendHeaders f1 sheetName 0 fs of Inl e \<Rightarrow> Inl e
              | Inr f2 \<Rightarrow> appendFields f2 sheetName (line + 1 + 1) opts 0 fs)
        else appendFields f1 sheetName (line + 1) opts 0 fs)))))"

subsection \<open>setNoDataSheetHeaders\<close>

text \<open>The header loop of \<open>setNoDataSheetHeaders\<close>, from field index \<open>i\<close>.\<close>

fun noDataHeaders :: "excelFile \<Rightarrow> string \<Rightarrow> int \<Rightarrow> field list \<Rightarrow> error + excelFile" where
  "noDataHeaders f sheetName i [] = Inr f"
| "noDataHeaders f sheetName i (fd # fds) =
     (if excelHeader fd \<noteq> [] \<and> excelHeader fd = ''-''
      then noDataHeaders f sheetName (i + 1) fds
      else (case coordinatesToCellName (i + 1) 1 of
              (cellName, Some e) \<Rightarrow> Inl e
            | (cellName, None) \<Rightarrow>
                (case SetCellValue f sheetName cellName (CString (headerText fd)) of
                   Inl e \<Rightarrow> Inl e
                 | Inr f' \<Rightarrow> noDataHeaders f' sheetName (i + 1) fds)))"

text \<open>The loop over the models of \<open>setNoDataSheetHeaders\<close>.\<close>

fun noDataSheets :: "excelFile \<Rightarrow> sheetModel list \<Rightarrow> error + excelFile" where
  "noDataSheets f [] = Inr f"
| "noDataSheets f (model # models) =
     (case SheetName model of Inl e \<Rightarrow> Inl e | Inr sheetName \<Rightarrow>
     (case GetSheetIndex f sheetName of Inl e \<Rightarrow> Inl e | Inr idx \<Rightarrow>
        if idx \<noteq> - 1 then noDataSheets f models
        else
          (case NewSheet f sheetName of Inl e \<Rightarrow> Inl e | Inr f1 \<Rightarrow>
          (case derefModel model of Inl e \<Rightarrow> Inl e | Inr model' \<Rightarrow>
          (case structFields model' of Inl e \<Rightarrow> Inl e | Inr fs \<Rightarrow>
          (case noDataHeaders f1 sheetName 0 fs of Inl e \<Rightarrow> Inl e
           | Inr f2 \<Rightarrow> noDataSheets f2 models))))))"

definition setNoDataSheetHeaders :: "excelFile \<Rightarrow> options \<Rightarrow> error + excelFile" where
  "setNoDataSheetHeaders f opts =
     (let models = sheetHeaders opts in
      if length models = 0 then Inr f else noDataSheets f models)"

subsection \<open>write\<close>

text \<open>
  The function \<open>write\<close> of the source is \<open>writeSheets\<close> here.
  The line counter \<open>sheetLinesCount\<close> is a Go map from sheet names to integers: reading
  an absent key gives 0, and \<open>++\<close> stores the value read plus one.
\<close>

type_synonym lineCounts = "string \<rightharpoonup> int"

definition linesOf :: "lineCounts \<Rightarrow> string \<Rightarrow> int" where
  "linesOf cnt name = (case cnt name of None \<Rightarrow> 0 | Some n \<Rightarrow> n)"

definition increment :: "lineCounts \<Rightarrow> string \<Rightarrow> lineCounts" where
  "increment cnt name = cnt(name \<mapsto> linesOf cnt name + 1)"

text \<open>The loop over the records of \<open>write\<close>, with the file and the line counter.\<close>

fun writeRows ::
  "options \<Rightarrow> sheetModel list \<Rightarrow> excelFile \<Rightarrow> lineCounts \<Rightarrow> error + excelFile \<times> lineCounts" where
  "writeRows opts [] f cnt = Inr (f, cnt)"
| "writeRows opts (sheetModel # sheetModels) f cnt =
     (if sheetModel = NilModel then Inl NilReferenceRow
      else
        (case SheetName sheetModel of Inl e \<Rightarrow> Inl e | Inr sheetName \<Rightarrow>
           if sheetName = [] then Inl NoSheetName
           else if modelKind sheetModel = Struct
           then (let l = linesOf cnt sheetName in
                 (case appendRow f sheetModel l opts of Inl e \<Rightarrow> Inl e
                  | Inr f' \<Rightarrow>
                      writeRows opts sheetModels f'
                        (if l = 0 \<and> \<not> headless opts
                         then increment (increment cnt sheetName) sheetName
                         else increment cnt sheetName)))
           else Inl MustBeStruct))"

text \<open>Whether some model of the list has the sheet name \<open>Sheet1\<close>.\<close>

definition containsSheet1 :: "sheetModel list \<Rightarrow> bool" where
  "containsSheet1 models = list_ex (\<lambda>m. SheetName m = Inr ''Sheet1'') models"

definition writeSheets :: "sheetModel list \<Rightarrow> Option list \<Rightarrow> error + excelFile" where
  "writeSheets sheetModels opts =
     (let options = applyOptions defaultOptions opts in
      case writeRows options sheetModels NewFile Map.empty of
        Inl e \<Rightarrow> Inl e
      | Inr (f, cnt) \<Rightarrow>
          (case setNoDataSheetHeaders f options of
             Inl e \<Rightarrow> Inl e
           | Inr f' \<Rightarrow>
               if containsSheet1 sheetModels \<or> containsSheet1 (sheetHeaders options)
               then Inr f'
               else DeleteSheet f' ''Sheet1''))"


subsection \<open>Reading the loops\<close>

text \<open>
  The three loops over the fields (\<open>appendHeaders\<close>, \<open>appendFields\<close>, \<open>noDataHeaders\<close>)
  have one shape: for the field at index \<open>i\<close>, either nothing is written, or the cell name
  of column \<open>i + 1\<close> is computed and a value is written there, unless computing the value
  fails. \<open>rowLoop\<close> is that shape, over the list of what each field asks for; the loops
  are shown to be instances of it.
\<close>

fun rowLoop ::
  "excelFile \<Rightarrow> string \<Rightarrow> int \<Rightarrow> int \<Rightarrow> (error + cellValue) option list \<Rightarrow> error + excelFile" where
  "rowLoop f sheetName line i [] = Inr f"
| "rowLoop f sheetName line i (None # xs) = rowLoop f sheetName line (i + 1) xs"
| "rowLoop f sheetName line i (Some r # xs) =
     (case coordinatesToCellName (i + 1) line of
        (cellName, Some e) \<Rightarrow> Inl e
      | (cellName, None) \<Rightarrow>
          (case r of
             Inl e \<Rightarrow> Inl e
           | Inr cv \<Rightarrow>
               (case SetCellValue f sheetName cellName cv of
                  Inl e \<Rightarrow> Inl e
                | Inr f' \<Rightarrow> rowLoop f' sheetName line (i + 1) xs)))"

text \<open>The name of a cell, without the error.\<close>

definition cellName :: "int \<Rightarrow> int \<Rightarrow> string" where
  "cellName col row = fst (coordinatesToCellName col row)"

text \<open>
  The row that \<open>appendRow\<close> writes a record's values to, given the \<open>line\<close> it is called
  with: \<open>line\<close> is incremented, and once more after the header row.
\<close>

definition dataLine :: "options \<Rightarrow> int \<Rightarrow> int" where
  "dataLine opts l = (if l + 1 = 1 \<and> \<not> headless opts then l + 1 + 1 else l + 1)"

subsection \<open>The options a caller can give\<close>

text \<open>
  The type \<open>options\<close> and its fields are unexported, so a caller builds an \<open>Option\<close> with
  one of the eight \<open>With\<close> functions only. An \<open>override\<close> names such a call, and
  \<open>optionOf\<close> is the function the call returns.
\<close>

datatype override =
    SetTimeFormatLayout string
  | SetFloatPrecision int
  | SetFloatFmt char
  | SetIfNullValue string
  | SetSheetHeaders "sheetModel list"
  | SetBoolValueAs string string
  | SetIntegerAsString
  | SetHeadless


text \<open>
  The configuration as the specification describes it: each option has the value of the
  latest override of that option, and the value it started with when there is none.
  \<open>latest sel d ds\<close> is the value of the last override in \<open>ds\<close> that \<open>sel\<close> reads a value
  from, \<open>d\<close> without one; \<open>resolved\<close> is compared with \<open>applyOptions\<close> below.
\<close>

fun latest :: "(override \<Rightarrow> 'a option) \<Rightarrow> 'a \<Rightarrow> override list \<Rightarrow> 'a" where
  "latest sel d [] = d"
| "latest sel d (x # xs) = latest sel (case sel x of None \<Rightarrow> d | Some v \<Rightarrow> v) xs"











subsection \<open>Pointers to pointers\<close>

text \<open>
  What the switch of \<open>appendRow\<close> ends with on a field's value, following its jump back
  to the label \<open>unAddrTo\<close>: \<open>None\<close> when a nil pointer is met, else the value that is no
  pointer. \<open>dereferences\<close> counts the passes through the branch that unwraps a pointer
  and jumps back.
\<close>

fun pointee :: "goValue \<Rightarrow> goValue option" where
  "pointee (PointerV None) = None"
| "pointee (PointerV (Some v)) = pointee v"
| "pointee v = Some v"

fun dereferences :: "goValue \<Rightarrow> nat" where
  "dereferences (PointerV (Some v)) = Suc (dereferences v)"
| "dereferences v = 0"

subsection \<open>Example values\<close>

text \<open>An exported field, for the examples.\<close>

definition fieldOf :: "string \<Rightarrow> string \<Rightarrow> goValue \<Rightarrow> field" where
  "fieldOf name tag v = \<lparr>fieldName = name, excelHeader = tag, exported = True, fieldValue = v\<rparr>"

subsection \<open>Reading results\<close>

text \<open>How many of the models have the sheet name \<open>n\<close>.\<close>

definition recordsOf :: "string \<Rightarrow> sheetModel list \<Rightarrow> nat" where
  "recordsOf n ms = length (filter (\<lambda>m. SheetName m = Inr n) ms)"

text \<open>The line count of a sheet after the record loop, and a cell of a written file.\<close>

definition linesAfter :: "error + excelFile \<times> lineCounts \<Rightarrow> string \<Rightarrow> int option" where
  "linesAfter r n = (case r of Inl e \<Rightarrow> None | Inr (f, cnt) \<Rightarrow> Some (linesOf cnt n))"

definition cellOfResult :: "error + excelFile \<Rightarrow> string \<Rightarrow> string \<Rightarrow> cellValue option" where
  "cellOfResult r sheet cell = (case r of Inl e \<Rightarrow> None | Inr f \<Rightarrow> cellAt f sheet cell)"

section \<open>Cell coordinates\<close>

subsection \<open>Unfolding the loops\<close>

lemma columnLetters_pos:
  "n > 0 \<Longrightarrow> columnLetters n = columnLetters ((n - 1) div 26) @ [char_of ((n - 1) mod 26 + 65)]"
  by (subst columnLetters.simps) simp

lemma columnLetters_nonpos: "\<not> n > 0 \<Longrightarrow> columnLetters n = []"
  by (subst columnLetters.simps) simp

lemma columnLoop_pos:
  "num > 0 \<Longrightarrow> columnLoop num col = columnLoop ((num - 1) div 26) (char_of ((num - 1) mod 26 + 65) # col)"
  by (subst columnLoop.simps) simp

lemma columnLoop_nonpos: "\<not> num > 0 \<Longrightarrow> columnLoop num col = col"
  by (subst columnLoop.simps) simp

lemma digitsOf_small: "n < 10 \<Longrightarrow> digitsOf n = [digitChar n]"
  by (subst digitsOf.simps) simp

lemma digitsOf_large: "\<not> n < 10 \<Longrightarrow> digitsOf n = digitsOf (n div 10) @ [digitChar (n mod 10)]"
  by (subst digitsOf.simps) simp

lemma columnLoop_letters: "columnLoop num col = columnLetters num @ col"
proof (induction num col rule: columnLoop.induct)
  case (1 num col)
  show ?case
  proof (cases "num > 0")
    case True
    with "1.IH" [OF True] show ?thesis
      by (simp add: columnLoop_pos columnLetters_pos)
  next
    case False
    then show ?thesis by (simp add: columnLoop_nonpos columnLetters_nonpos)
  qed
qed

lemma columnValue_snoc: "columnValue (s @ [c]) = columnValue s * 26 + (of_char c - 64)"
  by (simp add: columnValue_def)

lemma letter_code:
  fixes n :: int
  shows "(of_char (char_of (n mod 26 + 65) :: char) :: int) = n mod 26 + 65"
proof -
  have "0 \<le> n mod 26" "n mod 26 < 26" by simp_all
  then have "(n mod 26 + 65) mod 256 = n mod 26 + 65"
    by (intro mod_pos_pos_trivial) linarith+
  then show ?thesis by (simp only: of_char_of)
qed

lemma columnValue_letters: "0 \<le> n \<Longrightarrow> columnValue (columnLetters n) = n"
proof (induction n rule: columnLetters.induct)
  case (1 n)
  show ?case
  proof (cases "n > 0")
    case True
    then have ih: "columnValue (columnLetters ((n - 1) div 26)) = (n - 1) div 26"
      using "1.IH" by simp
    have "columnValue (columnLetters n) = (n - 1) div 26 * 26 + ((n - 1) mod 26 + 65 - 64)"
      by (simp only: columnLetters_pos [OF True] columnValue_snoc letter_code ih)
    also have "\<dots> = n" by presburger
    finally show ?thesis .
  next
    case False
    with 1 show ?thesis by (simp add: columnLetters_nonpos columnValue_def)
  qed
qed

lemma letter_upper:
  fixes n :: int
  shows "isUpperAZ (char_of (n mod 26 + 65))"
proof -
  have "0 \<le> n mod 26" "n mod 26 < 26" by simp_all
  then show ?thesis unfolding isUpperAZ_def letter_code by linarith
qed

lemma columnLetters_upper: "c \<in> set (columnLetters n) \<Longrightarrow> isUpperAZ c"
proof (induction n rule: columnLetters.induct)
  case (1 n)
  show ?case
  proof (cases "n > 0")
    case True
    from "1.prems" have "c \<in> set (columnLetters ((n - 1) div 26)) \<or> c = char_of ((n - 1) mod 26 + 65)"
      by (simp only: columnLetters_pos [OF True]) auto
    then show ?thesis using "1.IH" [OF True] letter_upper by auto
  next
    case False
    with 1 show ?thesis by (simp add: columnLetters_nonpos)
  qed
qed


lemma of_char_digitChar: "d < 10 \<Longrightarrow> (of_char (digitChar d) :: nat) = 48 + d"
  by (simp add: digitChar_def)

lemma digitChar_not_upper: "d < 10 \<Longrightarrow> \<not> isUpperAZ (digitChar d)"
proof -
  assume d: "d < 10"
  have "(of_char (digitChar d) :: int) = int (of_char (digitChar d) :: nat)"
    by (simp only: of_nat_of_char)
  also have "\<dots> = 48 + int d" using d by (simp add: of_char_digitChar)
  finally show ?thesis using d by (simp add: isUpperAZ_def)
qed

lemma decimalValue_snoc: "decimalValue (s @ [c]) = decimalValue s * 10 + (of_char c - 48)"
  by (simp add: decimalValue_def)

lemma decimalValue_digitsOf: "decimalValue (digitsOf n) = n"
proof (induction n rule: digitsOf.induct)
  case (1 n)
  show ?case
  proof (cases "n < 10")
    case True
    then show ?thesis
      by (simp add: digitsOf_small decimalValue_def of_char_digitChar)
  next
    case False
    have "decimalValue (digitsOf n) = decimalValue (digitsOf (n div 10)) * 10 + n mod 10"
      by (simp only: digitsOf_large [OF False] decimalValue_snoc) (simp add: of_char_digitChar)
    with "1.IH" [OF False] show ?thesis by simp
  qed
qed

lemma digitsOf_not_upper: "c \<in> set (digitsOf n) \<Longrightarrow> \<not> isUpperAZ c"
proof (induction n rule: digitsOf.induct)
  case (1 n)
  show ?case
  proof (cases "n < 10")
    case True
    with "1.prems" show ?thesis
      by (simp add: digitsOf_small digitChar_not_upper)
  next
    case False
    from "1.prems" have "c \<in> set (digitsOf (n div 10)) \<or> c = digitChar (n mod 10)"
      by (simp only: digitsOf_large [OF False]) auto
    then show ?thesis using "1.IH" [OF False] digitChar_not_upper [of "n mod 10"] by auto
  qed
qed

lemma letters_digits_split:
  assumes "xs @ ys = xs' @ ys'"
    and "\<forall>c \<in> set xs. P c" and "\<forall>c \<in> set xs'. P c"
    and "\<forall>c \<in> set ys. \<not> P c" and "\<forall>c \<in> set ys'. \<not> P c"
  shows "xs = xs' \<and> ys = ys'"
proof -
  have a: "takeWhile P (xs @ ys) = xs"
    using assms(2,4) by (cases ys) simp_all
  have b: "takeWhile P (xs' @ ys') = xs'"
    using assms(3,5) by (cases ys') simp_all
  from a b assms(1) have "xs = xs'" by simp
  with assms(1) show ?thesis by simp
qed

lemma cellName_inDomain:
  "inDomain col row \<Longrightarrow> coordinatesToCellName col row = (columnLetters col @ digitsOf (nat row), None)"
  by (simp add: inDomain_def coordinatesToCellName_def columnNumberToName_def Itoa_def
      totalRows_def minColumns_def maxColumns_def columnLoop_letters [of _ "[]"])

lemma cellName_inj:
  assumes "inDomain c1 r1" "inDomain c2 r2"
    and "fst (coordinatesToCellName c1 r1) = fst (coordinatesToCellName c2 r2)"
  shows "c1 = c2 \<and> r1 = r2"
proof -
  from assms have eq: "columnLetters c1 @ digitsOf (nat r1) = columnLetters c2 @ digitsOf (nat r2)"
    by (simp add: cellName_inDomain)
  have "columnLetters c1 = columnLetters c2 \<and> digitsOf (nat r1) = digitsOf (nat r2)"
    by (rule letters_digits_split [OF eq, where P = isUpperAZ])
      (auto simp: columnLetters_upper digitsOf_not_upper)
  then have "columnValue (columnLetters c1) = columnValue (columnLetters c2)"
    and "decimalValue (digitsOf (nat r1)) = decimalValue (digitsOf (nat r2))"
    by simp_all
  with assms(1,2) have "c1 = c2" and "nat r1 = nat r2"
    by (simp_all add: columnValue_letters decimalValue_digitsOf inDomain_def)
  with assms(1,2) show ?thesis
    unfolding inDomain_def by linarith
qed

lemma cellName_error:
  "\<not> inDomain col row \<Longrightarrow> snd (coordinatesToCellName col row) \<noteq> None"
  by (auto simp: inDomain_def coordinatesToCellName_def columnNumberToName_def
      totalRows_def minColumns_def maxColumns_def)

subsection \<open>The claims on coordinates\<close>

text \<open>
  C4: coordinate translation succeeds on every in-domain pair (columns 1 to 16384, rows 1
  to 1048576) and is injective there; the name is the column letters, produced by repeated
  1-based base-26 remainder-and-divide, followed by the row in decimal;
  \<open>translate (1, 1) = A1\<close>, \<open>translate (27, 1) = AA1\<close>, \<open>translate (16384, 1048576)\<close>
  succeeds, \<open>translate (16385, 1)\<close> and \<open>translate (1, 1048577)\<close> fail with an
  out-of-range error; columns 1, 26 and 27 are named A, Z and AA.
\<close>

theorem coordinate_translation:
  assumes "inDomain c1 r1" and "inDomain c2 r2"
  shows "snd (coordinatesToCellName c1 r1) = None
    \<and> fst (coordinatesToCellName c1 r1) = columnLetters c1 @ Itoa r1
    \<and> (fst (coordinatesToCellName c1 r1) = fst (coordinatesToCellName c2 r2)
          \<longrightarrow> c1 = c2 \<and> r1 = r2)
    \<and> coordinatesToCellName 1 1 = (''A1'', None)
    \<and> coordinatesToCellName 27 1 = (''AA1'', None)
    \<and> snd (coordinatesToCellName 16384 1048576) = None
    \<and> snd (coordinatesToCellName 16385 1) = Some ColumnOutOfRange
    \<and> snd (coordinatesToCellName 1 1048577) = Some RowExceedsLimit
    \<and> columnNumberToName 1 = (''A'', None)
    \<and> columnNumberToName 26 = (''Z'', None)
    \<and> columnNumberToName 27 = (''AA'', None)"
proof -
  have ok: "snd (coordinatesToCellName c1 r1) = None"
    using assms(1) by (simp add: cellName_inDomain)
  have name: "fst (coordinatesToCellName c1 r1) = columnLetters c1 @ Itoa r1"
    using assms(1) by (simp add: cellName_inDomain Itoa_def inDomain_def)
  have inj: "fst (coordinatesToCellName c1 r1) = fst (coordinatesToCellName c2 r2)
      \<longrightarrow> c1 = c2 \<and> r1 = r2"
    using cellName_inj [OF assms] by blast
  have a1: "coordinatesToCellName 1 1 = (''A1'', None)" by code_simp
  have aa1: "coordinatesToCellName 27 1 = (''AA1'', None)" by code_simp
  have last: "snd (coordinatesToCellName 16384 1048576) = None"
    by (simp add: cellName_inDomain inDomain_def)
  have col: "snd (coordinatesToCellName 16385 1) = Some ColumnOutOfRange" by code_simp
  have row: "snd (coordinatesToCellName 1 1048577) = Some RowExceedsLimit" by code_simp
  have n1: "columnNumberToName 1 = (''A'', None)" by code_simp
  have n26: "columnNumberToName 26 = (''Z'', None)" by code_simp
  have n27: "columnNumberToName 27 = (''AA'', None)" by code_simp
  from ok name inj a1 aa1 last col row n1 n26 n27 show ?thesis by blast
qed

theorem coordinate_translation_witness:
  "inDomain 1 11 \<and> inDomain 11 1
    \<and> snd (coordinatesToCellName 1 11) = None
    \<and> fst (coordinatesToCellName 1 11) \<noteq> fst (coordinatesToCellName 11 1)"
proof -
  have d: "inDomain 1 11" "inDomain 11 1" by (simp_all add: inDomain_def)
  have ne: "(1::int) \<noteq> 11" by simp
  from coordinate_translation [OF d] d ne show ?thesis by blast
qed

text \<open>
  C5: an out-of-domain input makes the translation fail, and the string returned beside
  the error is empty. For a column above 16384 with a row in range the code returns the
  row's digits beside the error: \<open>columnNumberToName\<close> fails with an empty name, and
  \<open>coordinatesToCellName\<close> still appends the row to it. The other out-of-domain inputs
  return the empty string.
\<close>

theorem column_out_of_range_partial_address:
  "coordinatesToCellName 16385 1 = (''1'', Some ColumnOutOfRange)
    \<and> coordinatesToCellName 0 1 = ([], Some (InvalidCellReference 0 1))
    \<and> coordinatesToCellName 1 0 = ([], Some (InvalidCellReference 1 0))
    \<and> coordinatesToCellName 1 1048577 = ([], Some RowExceedsLimit)"
  by code_simp

section \<open>The container and the loops\<close>

subsection \<open>The container\<close>

lemma hasSheet_map_of: "hasSheet f s \<longleftrightarrow> map_of f s \<noteq> None"
  by (simp add: hasSheet_def map_of_eq_None_iff)

lemma hasSheet_setCell:
  "hasSheet (map (\<lambda>s. if fst s = sheet then (fst s, (snd s)(cell \<mapsto> v)) else s) f) s' = hasSheet f s'"
  unfolding hasSheet_def by (induction f) auto

lemma cellAt_setCell:
  "cellAt (map (\<lambda>s. if fst s = sheet then (fst s, (snd s)(cell \<mapsto> v)) else s) f) s' c' =
     (if s' = sheet \<and> c' = cell \<and> hasSheet f sheet then Some v else cellAt f s' c')"
  unfolding cellAt_def hasSheet_map_of by (induction f) auto

lemma SetCellValue_Inr:
  "SetCellValue f s c v = Inr f' \<Longrightarrow> hasSheet f s"
  by (simp add: SetCellValue_def split: if_splits)

lemma SetCellValue_hasSheet:
  "SetCellValue f s c v = Inr f' \<Longrightarrow> hasSheet f' s' = hasSheet f s'"
  by (auto simp: SetCellValue_def hasSheet_setCell split: if_splits)

lemma SetCellValue_cellAt:
  "SetCellValue f s c v = Inr f' \<Longrightarrow>
     cellAt f' s' c' = (if s' = s \<and> c' = c then Some v else cellAt f s' c')"
  by (auto simp: SetCellValue_def cellAt_setCell split: if_splits)

lemma sheetIndex_absent: "0 \<le> i \<Longrightarrow> sheetIndex f name i = - 1 \<longleftrightarrow> \<not> hasSheet f name"
proof (induction f name i rule: sheetIndex.induct)
  case (1 name i)
  then show ?case by (simp add: hasSheet_def)
next
  case (2 s ss name i)
  then show ?case by (auto simp: hasSheet_def)
qed

lemma GetSheetIndex_absent:
  "GetSheetIndex f name = Inr idx \<Longrightarrow> idx = - 1 \<longleftrightarrow> \<not> hasSheet f name"
  using sheetIndex_absent [of 0 f name] by (auto simp: GetSheetIndex_def)

lemma NewSheet_hasSheet:
  "NewSheet f n = Inr f' \<Longrightarrow> hasSheet f' s = (hasSheet f s \<or> s = n)"
  by (auto simp: NewSheet_def hasSheet_def split: if_splits)

lemma NewSheet_cellAt:
  "NewSheet f n = Inr f' \<Longrightarrow> cellAt f' s c = cellAt f s c"
  by (auto simp: NewSheet_def cellAt_def hasSheet_map_of map_add_def split: if_splits option.splits)

lemma DeleteSheet_cellAt:
  "DeleteSheet f n = Inr f' \<Longrightarrow> s \<noteq> n \<Longrightarrow> cellAt f' s c = cellAt f s c"
proof -
  have "s \<noteq> n \<Longrightarrow> map_of (filter (\<lambda>p. fst p \<noteq> n) f) s = map_of f s"
    by (induction f) auto
  then show "DeleteSheet f n = Inr f' \<Longrightarrow> s \<noteq> n \<Longrightarrow> cellAt f' s c = cellAt f s c"
    by (auto simp: DeleteSheet_def cellAt_def)
qed

lemma DeleteSheet_hasSheet:
  "DeleteSheet f n = Inr f' \<Longrightarrow> hasSheet f' s = (hasSheet f s \<and> s \<noteq> n)"
  by (auto simp: DeleteSheet_def hasSheet_def)

subsection \<open>The row loop\<close>

lemma cellName_success_inDomain:
  "coordinatesToCellName c r = (n, None) \<Longrightarrow> inDomain c r"
  using cellName_error [of c r] by auto

lemma cellName_distinct:
  "inDomain c1 r1 \<Longrightarrow> inDomain c2 r2 \<Longrightarrow> c1 \<noteq> c2 \<or> r1 \<noteq> r2 \<Longrightarrow> cellName c1 r1 \<noteq> cellName c2 r2"
  unfolding cellName_def using cellName_inj by blast

lemma rowLoop_Some_cases:
  assumes "rowLoop f s line i (Some r # xs) = Inr f'"
  obtains cv f1 where "r = Inr cv" "coordinatesToCellName (i + 1) line = (cellName (i + 1) line, None)"
    "SetCellValue f s (cellName (i + 1) line) cv = Inr f1" "rowLoop f1 s line (i + 1) xs = Inr f'"
  using assms by (auto simp: cellName_def split: prod.splits option.splits sum.splits)

lemma rowLoop_hasSheet:
  "rowLoop f s line i xs = Inr f' \<Longrightarrow> hasSheet f' s' = hasSheet f s'"
proof (induction xs arbitrary: f i)
  case Nil
  then show ?case by simp
next
  case (Cons x xs)
  show ?case
  proof (cases x)
    case None
    with Cons show ?thesis by simp
  next
    case (Some r)
    from Cons.prems have "rowLoop f s line i (Some r # xs) = Inr f'" unfolding Some .
    then obtain cv f1 where
      "SetCellValue f s (cellName (i + 1) line) cv = Inr f1" "rowLoop f1 s line (i + 1) xs = Inr f'"
      by (rule rowLoop_Some_cases)
    then show ?thesis using Cons.IH SetCellValue_hasSheet by metis
  qed
qed

lemma rowLoop_inDomain:
  "rowLoop f s line i xs = Inr f' \<Longrightarrow> k < length xs \<Longrightarrow> xs ! k \<noteq> None \<Longrightarrow>
     inDomain (i + int k + 1) line"
proof (induction xs arbitrary: f i k)
  case Nil
  then show ?case by simp
next
  case (Cons x xs)
  show ?case
  proof (cases k)
    case 0
    with Cons.prems obtain r where r: "x = Some r" by auto
    from Cons.prems(1) have "rowLoop f s line i (Some r # xs) = Inr f'" unfolding r .
    then have "coordinatesToCellName (i + 1) line = (cellName (i + 1) line, None)"
      by (rule rowLoop_Some_cases)
    then show ?thesis using 0 by (simp add: cellName_success_inDomain)
  next
    case (Suc k')
    have "\<exists>f1. rowLoop f1 s line (i + 1) xs = Inr f'"
    proof (cases x)
      case None
      with Cons.prems(1) show ?thesis by auto
    next
      case (Some r)
      from Cons.prems(1) have "rowLoop f s line i (Some r # xs) = Inr f'" unfolding Some .
      then show ?thesis by (rule rowLoop_Some_cases) blast
    qed
    then obtain f1 where "rowLoop f1 s line (i + 1) xs = Inr f'" ..
    from Cons.IH [OF this, of k'] Cons.prems(2,3) Suc show ?thesis
      by (simp add: add.commute add.left_commute)
  qed
qed

lemma rowLoop_frame:
  "rowLoop f s line i xs = Inr f' \<Longrightarrow>
     s' \<noteq> s \<or> (\<forall>k<length xs. xs ! k \<noteq> None \<longrightarrow> c' \<noteq> cellName (i + int k + 1) line) \<Longrightarrow>
     cellAt f' s' c' = cellAt f s' c'"
proof (induction xs arbitrary: f i)
  case Nil
  then show ?case by simp
next
  case (Cons x xs)
  have later: "s' \<noteq> s \<or> (\<forall>k<length xs. xs ! k \<noteq> None \<longrightarrow> c' \<noteq> cellName (i + 1 + int k + 1) line)"
  proof (cases "s' = s")
    case True
    with Cons.prems(2) have a: "\<forall>k<length (x # xs). (x # xs) ! k \<noteq> None \<longrightarrow> c' \<noteq> cellName (i + int k + 1) line"
      by simp
    have "\<forall>k<length xs. xs ! k \<noteq> None \<longrightarrow> c' \<noteq> cellName (i + 1 + int k + 1) line"
    proof (intro allI impI)
      fix k assume "k < length xs" "xs ! k \<noteq> None"
      with a [rule_format, of "Suc k"] show "c' \<noteq> cellName (i + 1 + int k + 1) line"
        by (simp add: add.commute add.left_commute)
    qed
    then show ?thesis ..
  next
    case False
    then show ?thesis ..
  qed
  show ?case
  proof (cases x)
    case None
    with Cons.prems(1) have "rowLoop f s line (i + 1) xs = Inr f'" by simp
    from Cons.IH [OF this later] show ?thesis .
  next
    case (Some r)
    from Cons.prems(1) have "rowLoop f s line i (Some r # xs) = Inr f'" unfolding Some .
    then obtain cv f1 where
      set: "SetCellValue f s (cellName (i + 1) line) cv = Inr f1"
      and rest: "rowLoop f1 s line (i + 1) xs = Inr f'"
      by (rule rowLoop_Some_cases)
    have "s' \<noteq> s \<or> c' \<noteq> cellName (i + 1) line"
      using Cons.prems(2) Some by (cases "s' = s") auto
    then have "cellAt f1 s' c' = cellAt f s' c'"
      using SetCellValue_cellAt [OF set, of s' c'] by auto
    with Cons.IH [OF rest later] show ?thesis by simp
  qed
qed

lemma rowLoop_written:
  "rowLoop f s line i xs = Inr f' \<Longrightarrow> k < length xs \<Longrightarrow> xs ! k = Some r \<Longrightarrow>
     \<exists>cv. r = Inr cv \<and> cellAt f' s (cellName (i + int k + 1) line) = Some cv"
proof (induction xs arbitrary: f i k)
  case Nil
  then show ?case by simp
next
  case (Cons x xs)
  show ?case
  proof (cases k)
    case 0
    with Cons.prems have x: "x = Some r" by simp
    from Cons.prems(1) have "rowLoop f s line i (Some r # xs) = Inr f'" unfolding x .
    then obtain cv f1 where
      r: "r = Inr cv"
      and nm: "coordinatesToCellName (i + 1) line = (cellName (i + 1) line, None)"
      and set: "SetCellValue f s (cellName (i + 1) line) cv = Inr f1"
      and rest: "rowLoop f1 s line (i + 1) xs = Inr f'"
      by (rule rowLoop_Some_cases)
    have dom: "inDomain (i + 1) line"
      using nm by (rule cellName_success_inDomain)
    have "\<forall>j<length xs. xs ! j \<noteq> None \<longrightarrow> cellName (i + 1) line \<noteq> cellName (i + 1 + int j + 1) line"
    proof (intro allI impI)
      fix j assume j: "j < length xs" "xs ! j \<noteq> None"
      from rowLoop_inDomain [OF rest j] have "inDomain (i + 1 + int j + 1) line" .
      with dom show "cellName (i + 1) line \<noteq> cellName (i + 1 + int j + 1) line"
        by (intro cellName_distinct) auto
    qed
    then have "cellAt f' s (cellName (i + 1) line) = cellAt f1 s (cellName (i + 1) line)"
      using rowLoop_frame [OF rest] by blast
    also have "\<dots> = Some cv"
      using SetCellValue_cellAt [OF set] by simp
    finally show ?thesis using r 0 by simp
  next
    case (Suc k')
    have "\<exists>f1. rowLoop f1 s line (i + 1) xs = Inr f'"
    proof (cases x)
      case None
      with Cons.prems(1) show ?thesis by auto
    next
      case (Some r)
      from Cons.prems(1) have "rowLoop f s line i (Some r # xs) = Inr f'" unfolding Some .
      then show ?thesis by (rule rowLoop_Some_cases) blast
    qed
    then obtain f1 where "rowLoop f1 s line (i + 1) xs = Inr f'" ..
    from Cons.IH [OF this, of k'] Cons.prems(2,3) Suc show ?thesis
      by (simp add: add.commute add.left_commute)
  qed
qed

subsection \<open>The loops of the code as row loops\<close>

lemma setFieldValue_fieldCell:
  "setFieldValue f s c opts ex v =
     (case fieldCell opts ex v of Inl e \<Rightarrow> Inl e | Inr cv \<Rightarrow> SetCellValue f s c cv)"
  by (induction opts ex v rule: fieldCell.induct) simp_all

lemma appendFields_rowLoop:
  "appendFields f s line opts i fds =
     rowLoop f s line i (map (\<lambda>fd. Some (fieldCell opts (exported fd) (fieldValue fd))) fds)"
  by (induction fds arbitrary: f i)
    (auto simp: setFieldValue_fieldCell split: prod.splits option.splits sum.splits)

lemma appendHeaders_rowLoop:
  "appendHeaders f s i fds = rowLoop f s 1 i (map (\<lambda>fd. Some (Inr (CString (headerText fd)))) fds)"
  by (induction fds arbitrary: f i) (auto split: prod.splits option.splits sum.splits)

lemma noDataHeaders_rowLoop:
  "noDataHeaders f s i fds =
     rowLoop f s 1 i
       (map (\<lambda>fd. if excelHeader fd = ''-'' then None else Some (Inr (CString (headerText fd)))) fds)"
  by (induction fds arbitrary: f i) (auto split: prod.splits option.splits sum.splits)

lemma ensureSheet:
  "\<exists>f1. (if sheetIndex f n 0 = - 1 then NewSheet f n else Inr f) = Inr f1
     \<and> (\<forall>s. hasSheet f1 s = (hasSheet f s \<or> s = n))
     \<and> (\<forall>s c. cellAt f1 s c = cellAt f s c)"
proof (cases "hasSheet f n")
  case True
  then have "sheetIndex f n 0 \<noteq> - 1" by (simp add: sheetIndex_absent)
  with True show ?thesis by auto
next
  case False
  then have a: "sheetIndex f n 0 = - 1" by (simp add: sheetIndex_absent)
  obtain f1 where f1: "NewSheet f n = Inr f1" by (cases "hasSheet f n") (simp_all add: NewSheet_def)
  from NewSheet_hasSheet [OF f1] NewSheet_cellAt [OF f1] a f1 show ?thesis by auto
qed

lemma appendRow_struct:
  assumes "appendRow f (StructModel n fs) l opts = Inr f'"
  shows "\<exists>f1. (\<forall>s. hasSheet f1 s = (hasSheet f s \<or> s = n))
     \<and> (\<forall>s c. cellAt f1 s c = cellAt f s c)
     \<and> (if l = 0 \<and> \<not> headless opts
        then \<exists>f2. appendHeaders f1 n 0 fs = Inr f2 \<and> appendFields f2 n 2 opts 0 fs = Inr f'
        else appendFields f1 n (l + 1) opts 0 fs = Inr f')"
proof -
  from ensureSheet [of f n] obtain f1 where
    f1: "(if sheetIndex f n 0 = - 1 then NewSheet f n else Inr f) = Inr f1"
    and hs: "\<forall>s. hasSheet f1 s = (hasSheet f s \<or> s = n)"
    and ca: "\<forall>s c. cellAt f1 s c = cellAt f s c"
    by blast
  from assms f1 have body:
    "(if l + 1 = 1 \<and> \<not> headless opts
      then (case appendHeaders f1 n 0 fs of Inl e \<Rightarrow> Inl e
            | Inr f2 \<Rightarrow> appendFields f2 n (l + 1 + 1) opts 0 fs)
      else appendFields f1 n (l + 1) opts 0 fs) = Inr f'"
    by (simp add: appendRow_def GetSheetIndex_def)
  have "if l = 0 \<and> \<not> headless opts
        then \<exists>f2. appendHeaders f1 n 0 fs = Inr f2 \<and> appendFields f2 n 2 opts 0 fs = Inr f'
        else appendFields f1 n (l + 1) opts 0 fs = Inr f'"
  proof (cases "l = 0 \<and> \<not> headless opts")
    case True
    with body show ?thesis by (auto split: sum.splits)
  next
    case False
    with body show ?thesis by (auto split: if_splits)
  qed
  with hs ca show ?thesis by blast
qed

lemma appendRow_data_cells:
  assumes "appendRow f (StructModel n fs) l opts = Inr f'" and "k < length fs"
  shows "\<exists>cv. fieldCell opts (exported (fs ! k)) (fieldValue (fs ! k)) = Inr cv
    \<and> cellAt f' n (cellName (int k + 1) (dataLine opts l)) = Some cv"
proof -
  from appendRow_struct [OF assms(1)]
  have "\<exists>g. appendFields g n (dataLine opts l) opts 0 fs = Inr f'"
    by (cases "l = 0 \<and> \<not> headless opts") (auto simp: dataLine_def)
  then obtain g where "appendFields g n (dataLine opts l) opts 0 fs = Inr f'" ..
  then have "rowLoop g n (dataLine opts l) 0
      (map (\<lambda>fd. Some (fieldCell opts (exported fd) (fieldValue fd))) fs) = Inr f'"
    by (simp add: appendFields_rowLoop)
  from rowLoop_written [OF this, of k] assms(2) show ?thesis by simp
qed

lemma appendRow_header_cells:
  assumes "appendRow f (StructModel n fs) 0 opts = Inr f'" and "\<not> headless opts" and "k < length fs"
  shows "cellAt f' n (cellName (int k + 1) 1) = Some (CString (headerText (fs ! k)))"
proof -
  from appendRow_struct [OF assms(1)] assms(2) obtain f1 f2 where
    h: "appendHeaders f1 n 0 fs = Inr f2" and d: "appendFields f2 n 2 opts 0 fs = Inr f'"
    by auto
  let ?hs = "map (\<lambda>fd. Some (Inr (CString (headerText fd)) :: error + cellValue)) fs"
  let ?ds = "map (\<lambda>fd. Some (fieldCell opts (exported fd) (fieldValue fd))) fs"
  from h have rh: "rowLoop f1 n 1 0 ?hs = Inr f2" by (simp add: appendHeaders_rowLoop)
  from d have rd: "rowLoop f2 n 2 0 ?ds = Inr f'" by (simp add: appendFields_rowLoop)
  from rowLoop_written [OF rh, of k] assms(3)
  have w: "cellAt f2 n (cellName (int k + 1) 1) = Some (CString (headerText (fs ! k)))" by simp
  from rowLoop_inDomain [OF rh, of k] assms(3) have dk: "inDomain (int k + 1) 1" by simp
  have "\<forall>j<length ?ds. ?ds ! j \<noteq> None \<longrightarrow> cellName (int k + 1) 1 \<noteq> cellName (0 + int j + 1) 2"
  proof (intro allI impI)
    fix j assume j: "j < length ?ds" "?ds ! j \<noteq> None"
    from rowLoop_inDomain [OF rd j] have "inDomain (0 + int j + 1) 2" .
    with dk show "cellName (int k + 1) 1 \<noteq> cellName (0 + int j + 1) 2"
      by (intro cellName_distinct) auto
  qed
  with rowLoop_frame [OF rd] have "cellAt f' n (cellName (int k + 1) 1) = cellAt f2 n (cellName (int k + 1) 1)"
    by blast
  with w show ?thesis by simp
qed

section \<open>Fields\<close>

subsection \<open>Applying options\<close>

lemma applyOptions_append:
  "applyOptions options (os @ os') = applyOptions (applyOptions options os) os'"
  by (induction os arbitrary: options) simp_all

lemma applyOptions_snoc:
  "applyOptions options (os @ [opt]) = opt (applyOptions options os)"
  by (simp add: applyOptions_append)

subsection \<open>Pointer fields\<close>

lemma update_value_headers:
  assumes "k < length fs"
  shows "map (\<lambda>fd. Some (Inr (CString (headerText fd)) :: error + cellValue)) (fs[k := (fs ! k)\<lparr>fieldValue := v\<rparr>])
    = map (\<lambda>fd. Some (Inr (CString (headerText fd)))) fs"
proof -
  let ?g = "\<lambda>fd. Some (Inr (CString (headerText fd)) :: error + cellValue)"
  have "?g ((fs ! k)\<lparr>fieldValue := v\<rparr>) = ?g (fs ! k)"
    by (simp add: headerText_def)
  then have "(map ?g fs)[k := ?g ((fs ! k)\<lparr>fieldValue := v\<rparr>)] = map ?g fs"
    using assms(1) by (simp add: list_update_same_conv)
  then show ?thesis by (simp add: map_update)
qed

lemma appendHeaders_unwrap:
  assumes "k < length fs"
  shows "appendHeaders g n i (fs[k := (fs ! k)\<lparr>fieldValue := v\<rparr>]) = appendHeaders g n i fs"
  by (simp only: appendHeaders_rowLoop update_value_headers [OF assms])

lemma appendRow_StructModel:
  "appendRow f (StructModel n fs) l opts =
     (case GetSheetIndex f n of Inl e \<Rightarrow> Inl e | Inr idx \<Rightarrow>
     (case (if idx = - 1 then NewSheet f n else Inr f) of Inl e \<Rightarrow> Inl e | Inr f1 \<Rightarrow>
        if l + 1 = 1 \<and> \<not> headless opts
        then (case appendHeaders f1 n 0 fs of Inl e \<Rightarrow> Inl e
              | Inr f2 \<Rightarrow> appendFields f2 n (l + 1 + 1) opts 0 fs)
        else appendFields f1 n (l + 1) opts 0 fs))"
  by (simp add: appendRow_def cong: sum.case_cong)

lemma fieldCell_pointee:
  "fieldCell opts ex p =
     (case pointee p of None \<Rightarrow> Inr (CString (ifNullValue opts)) | Some v \<Rightarrow> fieldCell opts ex v)"
  by (induction opts ex p rule: fieldCell.induct) simp_all

lemma pointee_no_pointer: "pointee p = Some v \<Longrightarrow> v \<noteq> PointerV q"
  by (induction p rule: pointee.induct) auto

lemma pointee_fieldCell_map:
  assumes "k < length fs" and "pointee (fieldValue (fs ! k)) = Some v"
  shows "map (\<lambda>fd. Some (fieldCell opts (exported fd) (fieldValue fd))) (fs[k := (fs ! k)\<lparr>fieldValue := v\<rparr>])
    = map (\<lambda>fd. Some (fieldCell opts (exported fd) (fieldValue fd))) fs"
proof -
  let ?g = "\<lambda>fd. Some (fieldCell opts (exported fd) (fieldValue fd))"
  have "fieldCell opts (exported (fs ! k)) (fieldValue (fs ! k)) = fieldCell opts (exported (fs ! k)) v"
    using assms(2) by (simp add: fieldCell_pointee [of opts _ "fieldValue (fs ! k)"])
  then have "?g ((fs ! k)\<lparr>fieldValue := v\<rparr>) = ?g (fs ! k)"
    by simp
  then have "(map ?g fs)[k := ?g ((fs ! k)\<lparr>fieldValue := v\<rparr>)] = map ?g fs"
    using assms(1) by (simp add: list_update_same_conv)
  then show ?thesis by (simp add: map_update)
qed

lemma appendFields_pointee:
  assumes "k < length fs" and "pointee (fieldValue (fs ! k)) = Some v"
  shows "appendFields g n line opts i (fs[k := (fs ! k)\<lparr>fieldValue := v\<rparr>])
    = appendFields g n line opts i fs"
  by (simp only: appendFields_rowLoop pointee_fieldCell_map [OF assms])

lemma appendRow_pointee:
  assumes "k < length fs" and "pointee (fieldValue (fs ! k)) = Some v"
  shows "appendRow f (StructModel n (fs[k := (fs ! k)\<lparr>fieldValue := v\<rparr>])) l opts
    = appendRow f (StructModel n fs) l opts"
  unfolding appendRow_StructModel appendFields_pointee [OF assms] appendHeaders_unwrap [OF assms(1)]
  by (rule refl)

lemma setFieldValue_dereferences:
  "dereferences p = Suc m \<Longrightarrow>
     \<exists>v. p = PointerV (Some v) \<and> dereferences v = m
       \<and> setFieldValue f s c opts ex p = setFieldValue f s c opts ex v"
  by (cases p rule: dereferences.cases) simp_all

text \<open>
  C6, as the code has it: in a record that \<open>appendRow\<close> writes, a pointer field at index
  \<open>k\<close> gives the cell at its coordinate (column \<open>k + 1\<close>, the record's row) the configured
  null text when the pointer is nil, and also when a pointer reached through it is nil;
  the null text is empty by default and \<open>-\<close> after \<open>WithIfNullValue ("-")\<close>. Otherwise the
  pointer is unwrapped once for each level of indirection, down to the value \<open>v\<close> that is no
  pointer; \<open>appendRow\<close> then does what it does on the record whose field holds \<open>v\<close> itself,
  and the cell holds what the conversion table gives for \<open>v\<close>: the integer or its decimal
  text, the string, the boolean or its configured text, the formatted float or time.
\<close>

theorem pointer_field:
  assumes "appendRow f (StructModel n fs) l opts = Inr f'" and "k < length fs"
    and "fieldValue (fs ! k) = PointerV p"
  shows "(p = None \<longrightarrow>
            cellAt f' n (cellName (int k + 1) (dataLine opts l)) = Some (CString (ifNullValue opts)))
    \<and> (pointee (PointerV p) = None \<longrightarrow>
          cellAt f' n (cellName (int k + 1) (dataLine opts l)) = Some (CString (ifNullValue opts)))
    \<and> (pointee (PointerV p) = Some v \<longrightarrow>
          appendRow f (StructModel n (fs[k := (fs ! k)\<lparr>fieldValue := v\<rparr>])) l opts = Inr f'
        \<and> (\<forall>i. v = IntV i \<longrightarrow> cellAt f' n (cellName (int k + 1) (dataLine opts l))
              = Some (if integerAsString opts then CString (Itoa i) else CInt i))
        \<and> (\<forall>u. v = UintV u \<longrightarrow> cellAt f' n (cellName (int k + 1) (dataLine opts l))
              = Some (if integerAsString opts then CString (FormatUint u) else CUint u))
        \<and> (\<forall>s. v = StringV s \<longrightarrow> cellAt f' n (cellName (int k + 1) (dataLine opts l))
              = Some (CString s))
        \<and> (\<forall>b. v = BoolV b \<longrightarrow> cellAt f' n (cellName (int k + 1) (dataLine opts l))
              = Some (if trueValue opts \<noteq> None \<and> b then CString (the (trueValue opts))
                      else if falseValue opts \<noteq> None \<and> \<not> b then CString (the (falseValue opts))
                      else CBool b))
        \<and> (\<forall>x. v = Float32V x \<longrightarrow> cellAt f' n (cellName (int k + 1) (dataLine opts l))
              = Some (CFormatFloat32 x (floatFmt opts) (floatPrecision opts)))
        \<and> (\<forall>x. v = Float64V x \<longrightarrow> cellAt f' n (cellName (int k + 1) (dataLine opts l))
              = Some (CFormatFloat64 x (floatFmt opts) (floatPrecision opts)))
        \<and> (\<forall>t. v = TimeV t \<longrightarrow> cellAt f' n (cellName (int k + 1) (dataLine opts l))
              = Some (CFormatTime t (timeFormatLayout opts))))
    \<and> ifNullValue (applyOptions defaultOptions []) = []
    \<and> ifNullValue (applyOptions defaultOptions (os @ [WithIfNullValue ''-''])) = ''-''"
proof -
  let ?cell = "cellAt f' n (cellName (int k + 1) (dataLine opts l))"
  let ?ex = "exported (fs ! k)"
  from appendRow_data_cells [OF assms(1,2)] assms(3) obtain cv where
    cv: "fieldCell opts ?ex (PointerV p) = Inr cv" and c: "?cell = Some cv"
    by auto
  have nil: "pointee (PointerV p) = None \<longrightarrow> ?cell = Some (CString (ifNullValue opts))"
  proof
    assume "pointee (PointerV p) = None"
    with cv c show "?cell = Some (CString (ifNullValue opts))"
      by (simp add: fieldCell_pointee [of opts ?ex "PointerV p"])
  qed
  then have nil0: "p = None \<longrightarrow> ?cell = Some (CString (ifNullValue opts))"
    by auto
  have some: "pointee (PointerV p) = Some v \<longrightarrow>
          appendRow f (StructModel n (fs[k := (fs ! k)\<lparr>fieldValue := v\<rparr>])) l opts = Inr f'
        \<and> (\<forall>i. v = IntV i \<longrightarrow> ?cell
              = Some (if integerAsString opts then CString (Itoa i) else CInt i))
        \<and> (\<forall>u. v = UintV u \<longrightarrow> ?cell
              = Some (if integerAsString opts then CString (FormatUint u) else CUint u))
        \<and> (\<forall>s. v = StringV s \<longrightarrow> ?cell = Some (CString s))
        \<and> (\<forall>b. v = BoolV b \<longrightarrow> ?cell
              = Some (if trueValue opts \<noteq> None \<and> b then CString (the (trueValue opts))
                      else if falseValue opts \<noteq> None \<and> \<not> b then CString (the (falseValue opts))
                      else CBool b))
        \<and> (\<forall>x. v = Float32V x \<longrightarrow> ?cell
              = Some (CFormatFloat32 x (floatFmt opts) (floatPrecision opts)))
        \<and> (\<forall>x. v = Float64V x \<longrightarrow> ?cell
              = Some (CFormatFloat64 x (floatFmt opts) (floatPrecision opts)))
        \<and> (\<forall>t. v = TimeV t \<longrightarrow> ?cell = Some (CFormatTime t (timeFormatLayout opts)))"
  proof
    assume pv: "pointee (PointerV p) = Some v"
    then have pk: "pointee (fieldValue (fs ! k)) = Some v" using assms(3) by simp
    have a: "appendRow f (StructModel n (fs[k := (fs ! k)\<lparr>fieldValue := v\<rparr>])) l opts = Inr f'"
      using appendRow_pointee [OF assms(2) pk] assms(1) by simp
    from cv pv have fv: "fieldCell opts ?ex v = Inr cv"
      by (simp add: fieldCell_pointee [of opts ?ex "PointerV p"])
    have t1: "\<forall>i. v = IntV i \<longrightarrow> ?cell
              = Some (if integerAsString opts then CString (Itoa i) else CInt i)"
      using fv c by (auto split: if_splits)
    have t2: "\<forall>u. v = UintV u \<longrightarrow> ?cell
              = Some (if integerAsString opts then CString (FormatUint u) else CUint u)"
      using fv c by (auto split: if_splits)
    have t3: "\<forall>s. v = StringV s \<longrightarrow> ?cell = Some (CString s)"
      using fv c by (auto split: if_splits)
    have t4: "\<forall>b. v = BoolV b \<longrightarrow> ?cell
              = Some (if trueValue opts \<noteq> None \<and> b then CString (the (trueValue opts))
                      else if falseValue opts \<noteq> None \<and> \<not> b then CString (the (falseValue opts))
                      else CBool b)"
      using fv c by (auto split: if_splits)
    have t5: "\<forall>x. v = Float32V x \<longrightarrow> ?cell
              = Some (CFormatFloat32 x (floatFmt opts) (floatPrecision opts))"
      using fv c by (auto split: if_splits)
    have t6: "\<forall>x. v = Float64V x \<longrightarrow> ?cell
              = Some (CFormatFloat64 x (floatFmt opts) (floatPrecision opts))"
      using fv c by (auto split: if_splits)
    have t7: "\<forall>t. v = TimeV t \<longrightarrow> ?cell = Some (CFormatTime t (timeFormatLayout opts))"
      using fv c by (auto split: if_splits)
    show "appendRow f (StructModel n (fs[k := (fs ! k)\<lparr>fieldValue := v\<rparr>])) l opts = Inr f'
        \<and> (\<forall>i. v = IntV i \<longrightarrow> ?cell
              = Some (if integerAsString opts then CString (Itoa i) else CInt i))
        \<and> (\<forall>u. v = UintV u \<longrightarrow> ?cell
              = Some (if integerAsString opts then CString (FormatUint u) else CUint u))
        \<and> (\<forall>s. v = StringV s \<longrightarrow> ?cell = Some (CString s))
        \<and> (\<forall>b. v = BoolV b \<longrightarrow> ?cell
              = Some (if trueValue opts \<noteq> None \<and> b then CString (the (trueValue opts))
                      else if falseValue opts \<noteq> None \<and> \<not> b then CString (the (falseValue opts))
                      else CBool b))
        \<and> (\<forall>x. v = Float32V x \<longrightarrow> ?cell
              = Some (CFormatFloat32 x (floatFmt opts) (floatPrecision opts)))
        \<and> (\<forall>x. v = Float64V x \<longrightarrow> ?cell
              = Some (CFormatFloat64 x (floatFmt opts) (floatPrecision opts)))
        \<and> (\<forall>t. v = TimeV t \<longrightarrow> ?cell = Some (CFormatTime t (timeFormatLayout opts)))"
      using a t1 t2 t3 t4 t5 t6 t7
      apply -
      apply (intro conjI)
      apply assumption+
      done
  qed
  have d: "ifNullValue (applyOptions defaultOptions []) = []"
    by (simp add: defaultOptions_def)
  have w: "ifNullValue (applyOptions defaultOptions (os @ [WithIfNullValue ''-''])) = ''-''"
    by (simp add: applyOptions_snoc WithIfNullValue_def)
  show ?thesis
    using nil0 nil some d w
    apply -
    apply (intro conjI)
    apply assumption+
    done
qed

theorem pointer_field_witness:
  "cellAt (projr (appendRow NewFile
       (StructModel ''S'' [fieldOf ''P'' [] (PointerV (Some (PointerV (Some (IntV 7))))),
                           fieldOf ''Q'' [] (PointerV None),
                           fieldOf ''R'' [] (PointerV (Some (PointerV None)))]) 0
       (applyOptions defaultOptions [WithIfNullValue ''-''])))
     ''S'' ''A2'' = Some (CInt 7)
   \<and> cellAt (projr (appendRow NewFile
       (StructModel ''S'' [fieldOf ''P'' [] (PointerV (Some (PointerV (Some (IntV 7))))),
                           fieldOf ''Q'' [] (PointerV None),
                           fieldOf ''R'' [] (PointerV (Some (PointerV None)))]) 0
       (applyOptions defaultOptions [WithIfNullValue ''-''])))
     ''S'' ''B2'' = Some (CString ''-'')
   \<and> cellAt (projr (appendRow NewFile
       (StructModel ''S'' [fieldOf ''P'' [] (PointerV (Some (PointerV (Some (IntV 7))))),
                           fieldOf ''Q'' [] (PointerV None),
                           fieldOf ''R'' [] (PointerV (Some (PointerV None)))]) 0
       (applyOptions defaultOptions [WithIfNullValue ''-''])))
     ''S'' ''C2'' = Some (CString ''-'')"
proof -
  let ?opts = "applyOptions defaultOptions [WithIfNullValue ''-'']"
  let ?fs = "[fieldOf ''P'' [] (PointerV (Some (PointerV (Some (IntV 7))))),
              fieldOf ''Q'' [] (PointerV None),
              fieldOf ''R'' [] (PointerV (Some (PointerV None)))]"
  let ?w = "appendRow NewFile (StructModel ''S'' ?fs) 0 ?opts"
  have "\<not> isl ?w" by code_simp
  then have ok: "?w = Inr (projr ?w)" by simp
  have k: "0 < length ?fs" "1 < length ?fs" "2 < length ?fs" by simp_all
  have v0: "fieldValue (?fs ! 0) = PointerV (Some (PointerV (Some (IntV 7))))"
    and v1: "fieldValue (?fs ! 1) = PointerV None"
    and v2: "fieldValue (?fs ! 2) = PointerV (Some (PointerV None))"
    by (simp_all add: fieldOf_def)
  have n0: "cellName (int 0 + 1) (dataLine ?opts 0) = ''A2''"
    and n1: "cellName (int 1 + 1) (dataLine ?opts 0) = ''B2''"
    and n2: "cellName (int 2 + 1) (dataLine ?opts 0) = ''C2''"
    by code_simp+
  have nv: "ifNullValue ?opts = ''-''" by code_simp
  have ias: "\<not> integerAsString ?opts" by code_simp
  have p0: "pointee (PointerV (Some (PointerV (Some (IntV 7))))) = Some (IntV 7)" by simp
  have p2: "pointee (PointerV (Some (PointerV None))) = None" by simp
  note t0 = pointer_field [OF ok k(1) v0, where v = "IntV 7",
      THEN conjunct2, THEN conjunct2, THEN conjunct1, THEN mp, OF p0,
      THEN conjunct2, THEN conjunct1, THEN spec, THEN mp, OF refl]
  note t1 = pointer_field [OF ok k(2) v1, THEN conjunct1, THEN mp, OF refl]
  note t2 = pointer_field [OF ok k(3) v2, THEN conjunct2, THEN conjunct1, THEN mp, OF p2]
  from t0 ias have a: "cellAt (projr ?w) ''S'' ''A2'' = Some (CInt 7)"
    unfolding n0 by simp
  from t1 have b: "cellAt (projr ?w) ''S'' ''B2'' = Some (CString ''-'')"
    unfolding n1 nv .
  from t2 have c: "cellAt (projr ?w) ''S'' ''C2'' = Some (CString ''-'')"
    unfolding n2 nv .
  from a b c show ?thesis by (intro conjI)
qed

text \<open>
  C6 as stated fails for a field that is a pointer to a pointer: the switch jumps back for
  every level, so a pointer to a pointer to 7 is unwrapped twice, not once, and the cell
  holds the integer 7.
\<close>

theorem pointer_field_counterexample:
  "dereferences (PointerV (Some (PointerV (Some (IntV 7))))) = 2
   \<and> cellOfResult (appendRow NewFile
         (StructModel ''S'' [fieldOf ''P'' [] (PointerV (Some (PointerV (Some (IntV 7)))))]) 0
         defaultOptions)
       ''S'' ''A2'' = Some (CInt 7)"
  by code_simp

subsection \<open>Boolean fields\<close>



section \<open>The options\<close>

lemma latest_append:
  "latest sel d (xs @ ys) = latest sel (latest sel d xs) ys"
  by (induction xs arbitrary: d) simp_all

lemma latest_two:
  "sel b = Some v \<Longrightarrow> (\<forall>x\<in>set rest. sel x = None) \<Longrightarrow>
     latest sel d (before @ [a] @ between @ [b] @ rest) = v"
proof -
  have n: "(\<forall>x\<in>set rest. sel x = None) \<Longrightarrow> latest sel e rest = e" for e
    by (induction rest arbitrary: e) simp_all
  assume "sel b = Some v" "\<forall>x\<in>set rest. sel x = None"
  then show ?thesis by (simp add: latest_append n)
qed






section \<open>The record loop\<close>

lemma writeRows_append:
  "writeRows opts (xs @ ys) f cnt =
     (case writeRows opts xs f cnt of Inl e \<Rightarrow> Inl e | Inr (f1, c1) \<Rightarrow> writeRows opts ys f1 c1)"
  by (induction xs arbitrary: f cnt) (auto simp: Let_def split: sum.splits)

lemma linesOf_increment:
  "linesOf (increment cnt n) s = (if s = n then linesOf cnt n + 1 else linesOf cnt s)"
  by (simp add: linesOf_def increment_def)

lemma writeRows_Cons_Inr:
  assumes "writeRows opts (m # ms) f cnt = Inr (f2, cnt2)"
  shows "\<exists>n fs f'. m = StructModel n fs \<and> n \<noteq> []
    \<and> appendRow f m (linesOf cnt n) opts = Inr f'
    \<and> writeRows opts ms f'
         (if linesOf cnt n = 0 \<and> \<not> headless opts then increment (increment cnt n) n
          else increment cnt n) = Inr (f2, cnt2)"
proof (cases m)
  case NilModel
  with assms show ?thesis by simp
next
  case (StructModel n fs)
  with assms show ?thesis by (auto simp: Let_def split: if_splits sum.splits)
next
  case (PtrModel recv n p)
  with assms show ?thesis by (auto split: if_splits sum.splits)
next
  case (OtherModel k n)
  with assms show ?thesis
    by (auto simp: Let_def appendRow_def split: if_splits sum.splits)
qed

lemma writeRows_counts:
  assumes "writeRows opts ms f cnt = Inr (f', cnt')" and "\<forall>s. 0 \<le> linesOf cnt s"
  shows "linesOf cnt' s = linesOf cnt s + int (recordsOf s ms)
      + (if linesOf cnt s = 0 \<and> 0 < recordsOf s ms \<and> \<not> headless opts then 1 else 0)
    \<and> (\<forall>s. 0 \<le> linesOf cnt' s)"
  using assms
proof (induction ms arbitrary: f cnt)
  case Nil
  then show ?case by (simp add: recordsOf_def)
next
  case (Cons m ms)
  from writeRows_Cons_Inr [OF Cons.prems(1)] obtain n fs f1 where
    m: "m = StructModel n fs"
    and rest: "writeRows opts ms f1
         (if linesOf cnt n = 0 \<and> \<not> headless opts then increment (increment cnt n) n
          else increment cnt n) = Inr (f', cnt')"
    by blast
  let ?c = "if linesOf cnt n = 0 \<and> \<not> headless opts then increment (increment cnt n) n
          else increment cnt n"
  have nonneg: "\<forall>s. 0 \<le> linesOf ?c s"
    using Cons.prems(2) by (auto simp: linesOf_increment intro: add_nonneg_nonneg)
  have l: "linesOf ?c s = (if s = n then linesOf cnt n + (if linesOf cnt n = 0 \<and> \<not> headless opts then 2 else 1)
      else linesOf cnt s)"
    by (simp add: linesOf_increment)
  have r: "recordsOf s (m # ms) = (if s = n then Suc (recordsOf s ms) else recordsOf s ms)"
    using m by (auto simp: recordsOf_def)
  from Cons.IH [OF rest nonneg] have ih:
    "linesOf cnt' s = linesOf ?c s + int (recordsOf s ms)
      + (if linesOf ?c s = 0 \<and> 0 < recordsOf s ms \<and> \<not> headless opts then 1 else 0)"
    and nn: "\<forall>s. 0 \<le> linesOf cnt' s"
    by blast+
  have "0 \<le> linesOf cnt n" using Cons.prems(2) by blast
  with ih l r have "linesOf cnt' s = linesOf cnt s + int (recordsOf s (m # ms))
      + (if linesOf cnt s = 0 \<and> 0 < recordsOf s (m # ms) \<and> \<not> headless opts then 1 else 0)"
    by (auto split: if_splits)
  with nn show ?case by blast
qed

lemma linesOf_empty: "linesOf Map.empty s = 0"
  by (simp add: linesOf_def)

lemma writeSheets_Inr_rows:
  "writeSheets ms os = Inr g \<Longrightarrow>
     \<exists>f cnt. writeRows (applyOptions defaultOptions os) ms NewFile Map.empty = Inr (f, cnt)"
  by (auto simp: writeSheets_def Let_def split: sum.splits)

lemma writeRows_prefix:
  assumes "writeRows opts (before @ m # rest) f0 c0 = Inr (f2, cnt2)"
  shows "\<exists>f cnt f' cnt'. writeRows opts before f0 c0 = Inr (f, cnt)
    \<and> writeRows opts [m] f cnt = Inr (f', cnt')
    \<and> writeRows opts rest f' cnt' = Inr (f2, cnt2)"
proof -
  from assms obtain f cnt where b: "writeRows opts before f0 c0 = Inr (f, cnt)"
    and r: "writeRows opts (m # rest) f cnt = Inr (f2, cnt2)"
    by (auto simp: writeRows_append split: sum.splits)
  from r have "writeRows opts ([m] @ rest) f cnt = Inr (f2, cnt2)" by simp
  then obtain f' cnt' where "writeRows opts [m] f cnt = Inr (f', cnt')"
    and "writeRows opts rest f' cnt' = Inr (f2, cnt2)"
    unfolding writeRows_append by (auto split: sum.splits)
  with b show ?thesis by blast
qed

text \<open>
  C3, as the code has it: in a successful run the line counter starts empty; when a record
  is processed its sheet's count is the number of the sheet's earlier records, plus one for
  the header row unless the run is headless; processing the record adds one to its sheet's
  count, and one more when the count was 0 and the run is not headless, and leaves the other
  sheets' counts alone; the record's values are in the row whose number is the new count, so
  that the rows of a sheet follow one another.
\<close>

theorem line_counter:
  assumes "writeSheets (before @ m # rest) os = Inr g"
    and "opts = applyOptions defaultOptions os"
  shows "\<exists>f cnt f' cnt' n fs.
      writeRows opts before NewFile Map.empty = Inr (f, cnt)
    \<and> m = StructModel n fs
    \<and> linesOf cnt n = int (recordsOf n before)
         + (if 0 < recordsOf n before \<and> \<not> headless opts then 1 else 0)
    \<and> writeRows opts [m] f cnt = Inr (f', cnt')
    \<and> linesOf cnt' n = linesOf cnt n + (if linesOf cnt n = 0 \<and> \<not> headless opts then 2 else 1)
    \<and> (\<forall>s. s \<noteq> n \<longrightarrow> linesOf cnt' s = linesOf cnt s)
    \<and> (\<forall>k<length fs. \<exists>cv.
          fieldCell opts (exported (fs ! k)) (fieldValue (fs ! k)) = Inr cv
        \<and> cellAt f' n (cellName (int k + 1) (linesOf cnt' n)) = Some cv)"
proof -
  from writeSheets_Inr_rows [OF assms(1)] assms(2) obtain f2 cnt2 where
    "writeRows opts (before @ m # rest) NewFile Map.empty = Inr (f2, cnt2)"
    by blast
  from writeRows_prefix [OF this] obtain f cnt f' cnt' where
    b: "writeRows opts before NewFile Map.empty = Inr (f, cnt)"
    and s: "writeRows opts [m] f cnt = Inr (f', cnt')"
    by blast
  from writeRows_Cons_Inr [OF s] obtain n fs where
    m: "m = StructModel n fs"
    and a: "appendRow f m (linesOf cnt n) opts = Inr f'"
    and c: "cnt' = (if linesOf cnt n = 0 \<and> \<not> headless opts then increment (increment cnt n) n
          else increment cnt n)"
    by auto
  have before: "linesOf cnt n = int (recordsOf n before)
         + (if 0 < recordsOf n before \<and> \<not> headless opts then 1 else 0)"
    using writeRows_counts [OF b, of n] by (simp add: linesOf_empty)
  have step: "linesOf cnt' n = linesOf cnt n + (if linesOf cnt n = 0 \<and> \<not> headless opts then 2 else 1)"
    using c by (simp add: linesOf_increment)
  have other: "\<forall>s. s \<noteq> n \<longrightarrow> linesOf cnt' s = linesOf cnt s"
    using c by (simp add: linesOf_increment)
  have row: "dataLine opts (linesOf cnt n) = linesOf cnt' n"
    using step by (simp add: dataLine_def)
  have cells: "\<forall>k<length fs. \<exists>cv.
          fieldCell opts (exported (fs ! k)) (fieldValue (fs ! k)) = Inr cv
        \<and> cellAt f' n (cellName (int k + 1) (linesOf cnt' n)) = Some cv"
    using appendRow_data_cells [OF a [unfolded m]] unfolding row by blast
  from b m before s step other cells show ?thesis by blast
qed


theorem line_counter_witness:
  "\<exists>f cnt f' cnt'.
      writeRows defaultOptions [StructModel ''S'' [fieldOf ''A'' [] (IntV 1)]] NewFile Map.empty = Inr (f, cnt)
    \<and> linesOf cnt ''S'' = 2
    \<and> writeRows defaultOptions [StructModel ''S'' [fieldOf ''A'' [] (IntV 2)]] f cnt = Inr (f', cnt')
    \<and> linesOf cnt' ''S'' = 3
    \<and> cellAt f' ''S'' ''A3'' = Some (CInt 2)"
proof -
  let ?r1 = "StructModel ''S'' [fieldOf ''A'' [] (IntV 1)]"
  let ?fs = "[fieldOf ''A'' [] (IntV 2)]"
  let ?w = "writeSheets ([?r1] @ StructModel ''S'' ?fs # []) []"
  have "\<not> isl ?w" by code_simp
  then have ok: "?w = Inr (projr ?w)" by simp
  have o: "defaultOptions = applyOptions defaultOptions []" by simp
  from line_counter [OF ok o] obtain f cnt f' cnt' n fs where
    b: "writeRows defaultOptions [?r1] NewFile Map.empty = Inr (f, cnt)"
    and m: "StructModel ''S'' ?fs = StructModel n fs"
    and l: "linesOf cnt n = int (recordsOf n [?r1])
         + (if 0 < recordsOf n [?r1] \<and> \<not> headless defaultOptions then 1 else 0)"
    and s: "writeRows defaultOptions [StructModel ''S'' ?fs] f cnt = Inr (f', cnt')"
    and l': "linesOf cnt' n = linesOf cnt n + (if linesOf cnt n = 0 \<and> \<not> headless defaultOptions then 2 else 1)"
    and c: "\<forall>k<length fs. \<exists>cv.
          fieldCell defaultOptions (exported (fs ! k)) (fieldValue (fs ! k)) = Inr cv
        \<and> cellAt f' n (cellName (int k + 1) (linesOf cnt' n)) = Some cv"
    by (elim exE conjE) (rule that; assumption)
  from m have n: "n = ''S''" and fs: "fs = ?fs" by simp_all
  have r: "recordsOf ''S'' [?r1] = 1" by code_simp
  have h: "\<not> headless defaultOptions" by code_simp
  from l r h have l2: "linesOf cnt ''S'' = 2" unfolding n by simp
  from l' l2 have l3: "linesOf cnt' ''S'' = 3" unfolding n by simp
  have nm: "cellName (int 0 + 1) 3 = ''A3''" by code_simp
  have fc: "fieldCell defaultOptions (exported (?fs ! 0)) (fieldValue (?fs ! 0)) = Inr (CInt 2)"
    by code_simp
  have "0 < length fs" unfolding fs by simp
  with c have "\<exists>cv.
          fieldCell defaultOptions (exported (fs ! 0)) (fieldValue (fs ! 0)) = Inr cv
        \<and> cellAt f' n (cellName (int 0 + 1) (linesOf cnt' n)) = Some cv"
    by blast
  then have "\<exists>cv. Inr (CInt 2) = (Inr cv :: error + cellValue) \<and> cellAt f' ''S'' ''A3'' = Some cv"
    unfolding fs n l3 fc nm .
  then have a3: "cellAt f' ''S'' ''A3'' = Some (CInt 2)" by auto
  show ?thesis
    apply (rule exI [of _ f], rule exI [of _ cnt], rule exI [of _ f'], rule exI [of _ cnt'])
    apply (intro conjI)
        apply (rule b)
       apply (rule l2)
      apply (rule s)
     apply (rule l3)
    apply (rule a3)
    done
qed

text \<open>
  C3 as stated fails twice. In a headless run the first record of a sheet increments the
  counter once, not twice. And in a run with headers the first record of a sheet is
  processed at count 0 and its values land in row 2, below the header in row 1, not in row
  \<open>0 + 1\<close>.
\<close>

theorem line_counter_counterexample:
  "linesAfter (writeRows (applyOptions defaultOptions [WithHeadless])
       [StructModel ''S'' [fieldOf ''A'' [] (IntV 1)]] NewFile Map.empty) ''S'' = Some 1
   \<and> linesAfter (writeRows (applyOptions defaultOptions []) [] NewFile Map.empty) ''S'' = Some 0
   \<and> cellOfResult (writeSheets [StructModel ''S'' [fieldOf ''A'' [] (IntV 1)]] []) ''S'' ''A1''
       = Some (CString ''A'')
   \<and> cellOfResult (writeSheets [StructModel ''S'' [fieldOf ''A'' [] (IntV 1)]] []) ''S'' ''A2''
       = Some (CInt 1)"
  by code_simp

subsection \<open>Records that are pointers\<close>





section \<open>Declared sheet headers\<close>

lemma setNoDataSheetHeaders_headless:
  "setNoDataSheetHeaders f (opts\<lparr>headless := h\<rparr>) = setNoDataSheetHeaders f opts"
  by (simp add: setNoDataSheetHeaders_def)

lemma cellAt_absent: "\<not> hasSheet f s \<Longrightarrow> cellAt f s c = None"
  by (simp add: cellAt_def hasSheet_map_of)

lemma noDataSheets_append:
  "noDataSheets f (xs @ ys) =
     (case noDataSheets f xs of Inl e \<Rightarrow> Inl e | Inr f1 \<Rightarrow> noDataSheets f1 ys)"
  by (induction xs arbitrary: f) (auto split: sum.splits)

lemma noDataSheets_Cons_Inr:
  assumes "noDataSheets f (p # ps) = Inr f'"
  shows "\<exists>n. SheetName p = Inr n
    \<and> (if hasSheet f n then noDataSheets f ps = Inr f'
       else \<exists>f1 f2 q fs. NewSheet f n = Inr f1 \<and> derefModel p = Inr q \<and> structFields q = Inr fs
         \<and> noDataHeaders f1 n 0 fs = Inr f2 \<and> noDataSheets f2 ps = Inr f')"
proof -
  from assms obtain n where n: "SheetName p = Inr n"
    by (cases "SheetName p") auto
  show ?thesis
  proof (cases "hasSheet f n")
    case True
    then have "sheetIndex f n 0 \<noteq> - 1" by (simp add: sheetIndex_absent)
    with assms n True show ?thesis by (simp add: GetSheetIndex_def)
  next
    case False
    then have "sheetIndex f n 0 = - 1" by (simp add: sheetIndex_absent)
    with assms n False show ?thesis
      by (auto simp: GetSheetIndex_def split: sum.splits)
  qed
qed

lemma noDataHeaders_hasSheet:
  "noDataHeaders f n i fs = Inr f' \<Longrightarrow> hasSheet f' s = hasSheet f s"
  unfolding noDataHeaders_rowLoop by (rule rowLoop_hasSheet)

lemma noDataHeaders_other_sheet:
  "noDataHeaders f n i fs = Inr f' \<Longrightarrow> s \<noteq> n \<Longrightarrow> cellAt f' s c = cellAt f s c"
  unfolding noDataHeaders_rowLoop by (erule rowLoop_frame) blast

lemma noDataSheets_frame:
  "noDataSheets f ps = Inr f' \<Longrightarrow> hasSheet f s \<Longrightarrow> hasSheet f' s \<and> cellAt f' s c = cellAt f s c"
proof (induction ps arbitrary: f)
  case Nil
  then show ?case by simp
next
  case (Cons p ps)
  from noDataSheets_Cons_Inr [OF Cons.prems(1)] obtain n where
    n: "if hasSheet f n then noDataSheets f ps = Inr f'
       else \<exists>f1 f2 q fs. NewSheet f n = Inr f1 \<and> derefModel p = Inr q \<and> structFields q = Inr fs
         \<and> noDataHeaders f1 n 0 fs = Inr f2 \<and> noDataSheets f2 ps = Inr f'"
    by blast
  show ?case
  proof (cases "hasSheet f n")
    case True
    with n Cons.IH Cons.prems(2) show ?thesis by simp
  next
    case False
    with n obtain f1 f2 fs where f1: "NewSheet f n = Inr f1"
      and f2: "noDataHeaders f1 n 0 fs = Inr f2" and rest: "noDataSheets f2 ps = Inr f'"
      by auto
    from False Cons.prems(2) have ne: "s \<noteq> n" by auto
    have h2: "hasSheet f2 s"
      using Cons.prems(2) NewSheet_hasSheet [OF f1] noDataHeaders_hasSheet [OF f2] by simp
    have "cellAt f2 s c = cellAt f s c"
      using noDataHeaders_other_sheet [OF f2 ne] NewSheet_cellAt [OF f1] by simp
    with Cons.IH [OF rest h2] show ?thesis by simp
  qed
qed

lemma noDataSheets_new_sheets:
  "noDataSheets f ps = Inr f' \<Longrightarrow> hasSheet f' s \<Longrightarrow>
     hasSheet f s \<or> (\<exists>p\<in>set ps. SheetName p = Inr s)"
proof (induction ps arbitrary: f)
  case Nil
  then show ?case by simp
next
  case (Cons p ps)
  from noDataSheets_Cons_Inr [OF Cons.prems(1)] obtain n where
    sn: "SheetName p = Inr n"
    and n: "if hasSheet f n then noDataSheets f ps = Inr f'
       else \<exists>f1 f2 q fs. NewSheet f n = Inr f1 \<and> derefModel p = Inr q \<and> structFields q = Inr fs
         \<and> noDataHeaders f1 n 0 fs = Inr f2 \<and> noDataSheets f2 ps = Inr f'"
    by blast
  show ?case
  proof (cases "hasSheet f n")
    case True
    with n Cons.IH [of f] Cons.prems(2) show ?thesis by auto
  next
    case False
    with n obtain f1 f2 fs where f1: "NewSheet f n = Inr f1"
      and f2: "noDataHeaders f1 n 0 fs = Inr f2" and rest: "noDataSheets f2 ps = Inr f'"
      by auto
    from Cons.IH [OF rest Cons.prems(2)]
    have "hasSheet f2 s \<or> (\<exists>p\<in>set ps. SheetName p = Inr s)" .
    then show ?thesis
      using NewSheet_hasSheet [OF f1] noDataHeaders_hasSheet [OF f2] sn by auto
  qed
qed

lemma noDataHeaders_cells:
  assumes "noDataHeaders f n 0 fs = Inr f'" and "k < length fs" and "length fs \<le> 16384"
  shows "cellAt f' n (cellName (int k + 1) 1) =
     (if excelHeader (fs ! k) = ''-'' then cellAt f n (cellName (int k + 1) 1)
      else Some (CString (headerText (fs ! k))))"
proof -
  let ?xs = "map (\<lambda>fd. if excelHeader fd = ''-'' then None
      else Some (Inr (CString (headerText fd)) :: error + cellValue)) fs"
  from assms(1) have r: "rowLoop f n 1 0 ?xs = Inr f'" by (simp add: noDataHeaders_rowLoop)
  show ?thesis
  proof (cases "excelHeader (fs ! k) = ''-''")
    case False
    with rowLoop_written [OF r, of k] assms(2) show ?thesis by simp
  next
    case True
    from assms(2,3) have dk: "inDomain (int k + 1) 1" by (simp add: inDomain_def)
    have "\<forall>j<length ?xs. ?xs ! j \<noteq> None \<longrightarrow> cellName (int k + 1) 1 \<noteq> cellName (0 + int j + 1) 1"
    proof (intro allI impI)
      fix j assume j: "j < length ?xs" "?xs ! j \<noteq> None"
      from rowLoop_inDomain [OF r j] have dj: "inDomain (0 + int j + 1) 1" .
      from j True have "j \<noteq> k" by auto
      with dk dj show "cellName (int k + 1) 1 \<noteq> cellName (0 + int j + 1) 1"
        by (intro cellName_distinct) auto
    qed
    with rowLoop_frame [OF r] have "cellAt f' n (cellName (int k + 1) 1) = cellAt f n (cellName (int k + 1) 1)"
      by blast
    with True show ?thesis by simp
  qed
qed

lemma noDataSheets_header_cells:
  assumes "noDataSheets f (before @ StructModel n fs # after) = Inr f'"
    and "\<not> hasSheet f n" and "\<forall>p\<in>set before. SheetName p \<noteq> Inr n"
    and "k < length fs" and "length fs \<le> 16384"
  shows "hasSheet f' n \<and> cellAt f' n (cellName (int k + 1) 1) =
     (if excelHeader (fs ! k) = ''-'' then None else Some (CString (headerText (fs ! k))))"
proof -
  from assms(1) obtain f0 where b: "noDataSheets f before = Inr f0"
    and r: "noDataSheets f0 (StructModel n fs # after) = Inr f'"
    by (auto simp: noDataSheets_append split: sum.splits)
  from noDataSheets_new_sheets [OF b, of n] assms(2,3) have absent: "\<not> hasSheet f0 n" by auto
  from noDataSheets_Cons_Inr [OF r] absent obtain f1 f2 where
    f1: "NewSheet f0 n = Inr f1" and f2: "noDataHeaders f1 n 0 fs = Inr f2"
    and rest: "noDataSheets f2 after = Inr f'"
    by auto
  have e: "cellAt f1 n (cellName (int k + 1) 1) = None"
    using NewSheet_cellAt [OF f1] cellAt_absent [OF absent] by simp
  have h2: "hasSheet f2 n"
    using NewSheet_hasSheet [OF f1] noDataHeaders_hasSheet [OF f2] by simp
  from noDataHeaders_cells [OF f2 assms(4,5)] e
  have "cellAt f2 n (cellName (int k + 1) 1) =
     (if excelHeader (fs ! k) = ''-'' then None else Some (CString (headerText (fs ! k))))"
    by simp
  with noDataSheets_frame [OF rest h2] show ?thesis by simp
qed

lemma appendRow_new_sheets:
  assumes "appendRow f (StructModel n fs) l opts = Inr f'" and "hasSheet f' s"
  shows "hasSheet f s \<or> s = n"
proof -
  from appendRow_struct [OF assms(1)] obtain f1 where
    h: "\<forall>s. hasSheet f1 s = (hasSheet f s \<or> s = n)"
    and c: "if l = 0 \<and> \<not> headless opts
        then \<exists>f2. appendHeaders f1 n 0 fs = Inr f2 \<and> appendFields f2 n 2 opts 0 fs = Inr f'
        else appendFields f1 n (l + 1) opts 0 fs = Inr f'"
    by blast
  have "hasSheet f' s = hasSheet f1 s"
  proof (cases "l = 0 \<and> \<not> headless opts")
    case True
    with c obtain f2 where "appendHeaders f1 n 0 fs = Inr f2" "appendFields f2 n 2 opts 0 fs = Inr f'"
      by auto
    then show ?thesis
      unfolding appendHeaders_rowLoop appendFields_rowLoop
      using rowLoop_hasSheet by metis
  next
    case False
    with c have "appendFields f1 n (l + 1) opts 0 fs = Inr f'" by simp
    then show ?thesis
      unfolding appendFields_rowLoop by (rule rowLoop_hasSheet)
  qed
  with h assms(2) show ?thesis by simp
qed

lemma writeRows_new_sheets:
  "writeRows opts ms f cnt = Inr (f', cnt') \<Longrightarrow> hasSheet f' s \<Longrightarrow>
     hasSheet f s \<or> (\<exists>m\<in>set ms. SheetName m = Inr s)"
proof (induction ms arbitrary: f cnt)
  case Nil
  then show ?case by simp
next
  case (Cons m ms)
  from writeRows_Cons_Inr [OF Cons.prems(1)] obtain n fs f1 where
    m: "m = StructModel n fs"
    and a: "appendRow f m (linesOf cnt n) opts = Inr f1"
    and rest: "writeRows opts ms f1
         (if linesOf cnt n = 0 \<and> \<not> headless opts then increment (increment cnt n) n
          else increment cnt n) = Inr (f', cnt')"
    by blast
  from Cons.IH [OF rest Cons.prems(2)]
  have "hasSheet f1 s \<or> (\<exists>m\<in>set ms. SheetName m = Inr s)" .
  then show ?case
    using appendRow_new_sheets [OF a [unfolded m], of s] m by auto
qed

lemma hasSheet_NewFile: "hasSheet NewFile s \<longleftrightarrow> s = ''Sheet1''"
  by (auto simp: hasSheet_def NewFile_def)

lemma recordsOf_0: "recordsOf n ms = 0 \<longleftrightarrow> (\<forall>m\<in>set ms. SheetName m \<noteq> Inr n)"
  by (simp add: recordsOf_def filter_empty_conv)

text \<open>
  C1, as the code has it, on the path of \<open>setNoDataSheetHeaders\<close>: for a declared struct
  prototype with at most 16384 fields whose sheet is not \<open>Sheet1\<close>, received no record and
  is declared by no earlier prototype, a successful run leaves the sheet in the file; a
  field whose tag is \<open>-\<close> has no header, and its cell in row 1 stays empty; every other
  field has its header (the tag, or the field's name) in row 1 at the column of its own
  position, so that the fields after a skipped one do not move.
\<close>

theorem declared_header_skips_field:
  assumes "writeSheets ms os = Inr g"
    and "sheetHeaders (applyOptions defaultOptions os) = before @ StructModel n fs # after"
    and "recordsOf n ms = 0" and "recordsOf n before = 0" and "n \<noteq> ''Sheet1''"
    and "length fs \<le> 16384" and "k < length fs"
  shows "hasSheet g n
    \<and> (excelHeader (fs ! k) = ''-'' \<longrightarrow> cellAt g n (cellName (int k + 1) 1) = None)
    \<and> (excelHeader (fs ! k) \<noteq> ''-'' \<longrightarrow>
          cellAt g n (cellName (int k + 1) 1) = Some (CString (headerText (fs ! k))))"
proof -
  let ?opts = "applyOptions defaultOptions os"
  from assms(1) obtain f cnt f' where
    rows: "writeRows ?opts ms NewFile Map.empty = Inr (f, cnt)"
    and hdrs: "setNoDataSheetHeaders f ?opts = Inr f'"
    and fin: "g = f' \<or> DeleteSheet f' ''Sheet1'' = Inr g"
    by (auto simp: writeSheets_def Let_def split: sum.splits if_splits)
  from writeRows_new_sheets [OF rows, of n] assms(3,5)
  have absent: "\<not> hasSheet f n"
    by (auto simp: hasSheet_NewFile recordsOf_0)
  from hdrs assms(2) have nd: "noDataSheets f (before @ StructModel n fs # after) = Inr f'"
    by (simp add: setNoDataSheetHeaders_def Let_def)
  from assms(4) have b: "\<forall>p\<in>set before. SheetName p \<noteq> Inr n"
    by (simp add: recordsOf_0)
  from noDataSheets_header_cells [OF nd absent b assms(7,6)]
  have h: "hasSheet f' n"
    and c: "cellAt f' n (cellName (int k + 1) 1) =
     (if excelHeader (fs ! k) = ''-'' then None else Some (CString (headerText (fs ! k))))"
    by blast+
  from fin have "hasSheet g n \<and> cellAt g n (cellName (int k + 1) 1) = cellAt f' n (cellName (int k + 1) 1)"
  proof
    assume "g = f'"
    with h show ?thesis by simp
  next
    assume d: "DeleteSheet f' ''Sheet1'' = Inr g"
    from DeleteSheet_cellAt [OF d assms(5)] DeleteSheet_hasSheet [OF d, of n] h assms(5)
    show ?thesis by simp
  qed
  with c show ?thesis by simp
qed

theorem declared_header_skips_field_witness:
  "cellAt (projr (writeSheets []
       [WithSheetHeaders [StructModel ''S'' [fieldOf ''A'' ''-'' (StringV ''a''), fieldOf ''B'' [] (StringV ''b'')]]]))
     ''S'' ''A1'' = None
   \<and> cellAt (projr (writeSheets []
       [WithSheetHeaders [StructModel ''S'' [fieldOf ''A'' ''-'' (StringV ''a''), fieldOf ''B'' [] (StringV ''b'')]]]))
     ''S'' ''B1'' = Some (CString ''B'')"
proof -
  let ?fs = "[fieldOf ''A'' ''-'' (StringV ''a''), fieldOf ''B'' [] (StringV ''b'')]"
  let ?os = "[WithSheetHeaders [StructModel ''S'' ?fs]]"
  let ?w = "writeSheets [] ?os"
  have "\<not> isl ?w" by code_simp
  then have ok: "?w = Inr (projr ?w)" by simp
  have sh: "sheetHeaders (applyOptions defaultOptions ?os) = [] @ StructModel ''S'' ?fs # []"
    by (simp add: WithSheetHeaders_def)
  have r: "recordsOf ''S'' [] = 0" by (simp add: recordsOf_def)
  have ne: "''S'' \<noteq> ''Sheet1''" by simp
  have len: "length ?fs \<le> 16384" by simp
  have k0: "0 < length ?fs" and k1: "1 < length ?fs" by simp_all
  have a: "excelHeader (?fs ! 0) = ''-''" by (simp add: fieldOf_def)
  have b: "excelHeader (?fs ! 1) \<noteq> ''-''" "headerText (?fs ! 1) = ''B''"
    by (simp_all add: fieldOf_def headerText_def)
  have n0: "cellName (int 0 + 1) 1 = ''A1''" by code_simp
  have n1: "cellName (int 1 + 1) 1 = ''B1''" by code_simp
  from declared_header_skips_field [OF ok sh r r ne len k0] a
  have x: "cellAt (projr ?w) ''S'' ''A1'' = None" unfolding n0 by blast
  from declared_header_skips_field [OF ok sh r r ne len k1] b
  have y: "cellAt (projr ?w) ''S'' ''B1'' = Some (CString ''B'')" unfolding n1 by metis
  from x y show ?thesis ..
qed

text \<open>
  C1 as stated fails on both paths. On a sheet that receives a record, \<open>appendRow\<close> does
  not look for the tag \<open>-\<close>: the header \<open>-\<close> is written to row 1 and the field's value to
  the record's row. On a declared sheet without records the field is skipped, but the next
  field stays in column B: column A is empty.
\<close>

theorem skip_field_counterexample:
  "cellOfResult (writeSheets
       [StructModel ''S'' [fieldOf ''A'' ''-'' (StringV ''a''), fieldOf ''B'' [] (StringV ''b'')]] [])
     ''S'' ''A1'' = Some (CString ''-'')
   \<and> cellOfResult (writeSheets
       [StructModel ''S'' [fieldOf ''A'' ''-'' (StringV ''a''), fieldOf ''B'' [] (StringV ''b'')]] [])
     ''S'' ''A2'' = Some (CString ''a'')
   \<and> cellOfResult (writeSheets
       [StructModel ''S'' [fieldOf ''A'' ''-'' (StringV ''a''), fieldOf ''B'' [] (StringV ''b'')]] [])
     ''S'' ''B1'' = Some (CString ''B'')
   \<and> \<not> isl (writeSheets []
       [WithSheetHeaders [StructModel ''S'' [fieldOf ''A'' ''-'' (StringV ''a''), fieldOf ''B'' [] (StringV ''b'')]]])
   \<and> cellOfResult (writeSheets []
       [WithSheetHeaders [StructModel ''S'' [fieldOf ''A'' ''-'' (StringV ''a''), fieldOf ''B'' [] (StringV ''b'')]]])
     ''S'' ''A1'' = None
   \<and> cellOfResult (writeSheets []
       [WithSheetHeaders [StructModel ''S'' [fieldOf ''A'' ''-'' (StringV ''a''), fieldOf ''B'' [] (StringV ''b'')]]])
     ''S'' ''B1'' = Some (CString ''B'')"
  by code_simp

text \<open>
  C2: a declared prototype whose sheet received no record leaves a sheet with exactly its
  header row, also when the sheet is \<open>Sheet1\<close>. For \<open>Sheet1\<close> the code returns the new
  file as it was created: \<open>setNoDataSheetHeaders\<close> finds the default sheet, takes it for a
  sheet with data and writes no header, and \<open>write\<close> keeps the sheet because a prototype
  names it. Under any other name, here \<open>Sheet2\<close>, the header is written.
\<close>

theorem sheet1_prototype_without_header:
  "writeSheets [] [WithSheetHeaders [StructModel ''Sheet1'' [fieldOf ''Col1'' [] (StringV [])]]]
     = Inr NewFile
   \<and> cellAt NewFile ''Sheet1'' ''A1'' = None
   \<and> cellOfResult (writeSheets [] [WithSheetHeaders [StructModel ''Sheet2'' [fieldOf ''Col1'' [] (StringV [])]]])
       ''Sheet2'' ''A1'' = Some (CString ''Col1'')"
proof -
  have a: "writeSheets [] [WithSheetHeaders [StructModel ''Sheet1'' [fieldOf ''Col1'' [] (StringV [])]]]
     = Inr NewFile"
    by (simp add: writeSheets_def WithSheetHeaders_def setNoDataSheetHeaders_def GetSheetIndex_def
        NewFile_def containsSheet1_def)
  have b: "cellAt NewFile ''Sheet1'' ''A1'' = None" by code_simp
  have c: "cellOfResult (writeSheets [] [WithSheetHeaders [StructModel ''Sheet2'' [fieldOf ''Col1'' [] (StringV [])]]])
       ''Sheet2'' ''A1'' = Some (CString ''Col1'')" by code_simp
  from a b c show ?thesis by blast
qed

text \<open>
  C10: with \<open>WithHeadless\<close> and \<open>WithSheetHeaders\<close>, a declared sheet without records
  still gets its header row. \<open>setNoDataSheetHeaders\<close> does not read the headless flag
  (\<open>setNoDataSheetHeaders_headless\<close>), and the header of \<open>Sheet2\<close> is written; but the
  declared sheet \<open>Sheet1\<close> gets no header row, with the flag as without it.
\<close>

theorem headless_sheet1_prototype_without_header:
  "writeSheets [] [WithHeadless, WithSheetHeaders [StructModel ''Sheet1'' [fieldOf ''Col1'' [] (StringV [])]]]
     = Inr NewFile
   \<and> cellAt NewFile ''Sheet1'' ''A1'' = None
   \<and> cellOfResult (writeSheets [] [WithHeadless, WithSheetHeaders [StructModel ''Sheet2'' [fieldOf ''Col1'' [] (StringV [])]]])
       ''Sheet2'' ''A1'' = Some (CString ''Col1'')"
proof -
  have a: "writeSheets [] [WithHeadless, WithSheetHeaders [StructModel ''Sheet1'' [fieldOf ''Col1'' [] (StringV [])]]]
     = Inr NewFile"
    by (simp add: writeSheets_def WithSheetHeaders_def WithHeadless_def setNoDataSheetHeaders_def
        GetSheetIndex_def NewFile_def containsSheet1_def)
  have b: "cellAt NewFile ''Sheet1'' ''A1'' = None" by code_simp
  have c: "cellOfResult (writeSheets [] [WithHeadless, WithSheetHeaders [StructModel ''Sheet2'' [fieldOf ''Col1'' [] (StringV [])]]])
       ''Sheet2'' ''A1'' = Some (CString ''Col1'')" by code_simp
  from a b c show ?thesis by blast
qed

end
